theory Spec2Isabelle
  imports Main
begin

section \<open>Python values the pipeline works with\<close>

text \<open>
  Exceptions the modelled code can raise. Each carries what \<open>str(e)\<close> is built from:
  the missing key of a KeyError (a string, or an index), the message of an IndexError, a
  TypeError or a ValueError, the type and the attribute of an AttributeError.
  Strings are lists of characters; a character stands for one code point below 256.
\<close>

datatype py_exc =
    KeyError string
  | KeyErrorIndex int
  | IndexError string
  | AttributeError string string
  | TypeError string
  | ZeroDivisionError
  | FileNotFoundError string
  | StorageError string
  | ValueError string
  | MemoryError

section \<open>Batch orchestrator: splitting the identifier list\<close>

text \<open>
  \<open>extract_batch_data\<close> (etl_pipeline.py, lines 238-240):
  \<^verbatim>\<open>
  batch_size = max(1, total_count // self.max_workers)
  org_batches = [org_numbers[i:i + batch_size] for i in range(0, total_count, batch_size)]
  \<close>
  \<open>max_workers\<close> is a Python int, so the floor division raises ZeroDivisionError at 0.
\<close>

definition batch_size :: "nat \<Rightarrow> int \<Rightarrow> py_exc + nat" where
  "batch_size total_count max_workers =
     (if max_workers = 0 then Inl ZeroDivisionError
      else Inr (nat (max 1 (int total_count div max_workers))))"

text \<open>\<open>range(i, n, step)\<close> for a positive step (a zero step raises in Python; the
  batch size is never zero).\<close>

function py_range :: "nat \<Rightarrow> nat \<Rightarrow> nat \<Rightarrow> nat list" where
  "py_range i n step =
     (if step = 0 then [] else if i < n then i # py_range (i + step) n step else [])"
  by pat_completeness auto
termination
  by (relation "measure (\<lambda>(i, n, step). n - i)") auto

declare py_range.simps [simp del]

text \<open>The slice \<open>xs[i:j]\<close> for \<open>0 \<le> i \<le> j\<close>; Python clips it at the end of the list.\<close>

definition slice :: "'a list \<Rightarrow> nat \<Rightarrow> nat \<Rightarrow> 'a list" where
  "slice xs i j = take (j - i) (drop i xs)"

definition org_batches :: "'a list \<Rightarrow> int \<Rightarrow> py_exc + 'a list list" where
  "org_batches org_numbers max_workers =
     (case batch_size (length org_numbers) max_workers of
        Inl e \<Rightarrow> Inl e
      | Inr b \<Rightarrow> Inr (map (\<lambda>i. slice org_numbers i (i + b))
                        (py_range 0 (length org_numbers) b)))"

section \<open>Dataframe cells and the conversions of the load step\<close>

text \<open>
  A cell of a pandas dataframe as the pipeline meets it: the missing-value marker NaN,
  Python's \<open>None\<close>, a string, a bool or an int. (Lists and dicts as cell values are
  not modelled.)
\<close>

datatype cell = NaN | PyNone | PyStr string | PyBool bool | PyInt int

text \<open>Decimal printing of Python ints, as \<open>str\<close> does it.\<close>

definition digit_char :: "nat \<Rightarrow> char" where
  "digit_char d = char_of (48 + d)"

function str_nat :: "nat \<Rightarrow> string" where
  "str_nat n = (if n < 10 then [digit_char n] else str_nat (n div 10) @ [digit_char (n mod 10)])"
  by pat_completeness auto
termination
  by (relation "measure id") auto

declare str_nat.simps [simp del]

definition str_int :: "int \<Rightarrow> string" where
  "str_int i = (if i < 0 then CHR ''-'' # str_nat (nat (- i)) else str_nat (nat i))"

text \<open>\<open>str(value)\<close> on a cell.\<close>

fun py_str :: "cell \<Rightarrow> string" where
  "py_str NaN = ''nan''"
| "py_str PyNone = ''None''"
| "py_str (PyStr s) = s"
| "py_str (PyBool b) = (if b then ''True'' else ''False'')"
| "py_str (PyInt i) = str_int i"

text \<open>
  \<open>str.lower\<close> and \<open>str.strip\<close> on code points below 256: the capitals are A-Z and
  the Latin-1 capitals 192-222 without the multiplication sign 215; the white space
  characters are 9-13, 28-32, 133 and 160.
\<close>

definition lower_char :: "char \<Rightarrow> char" where
  "lower_char c =
     (let n = (of_char c :: nat)
      in if (65 \<le> n \<and> n \<le> 90) \<or> (192 \<le> n \<and> n \<le> 222 \<and> n \<noteq> 215)
         then char_of (n + 32) else c)"

definition lower :: "string \<Rightarrow> string" where
  "lower s = map lower_char s"

definition is_space :: "char \<Rightarrow> bool" where
  "is_space c =
     (let n = (of_char c :: nat)
      in (9 \<le> n \<and> n \<le> 13) \<or> (28 \<le> n \<and> n \<le> 32) \<or> n = 133 \<or> n = 160)"

definition strip :: "string \<Rightarrow> string" where
  "strip s = rev (dropWhile is_space (rev (dropWhile is_space s)))"

text \<open>\<open>pd.isna\<close> and \<open>pd.notna\<close> on a scalar cell.\<close>

fun isna :: "cell \<Rightarrow> bool" where
  "isna NaN = True"
| "isna PyNone = True"
| "isna _ = False"

definition notna :: "cell \<Rightarrow> bool" where
  "notna v = (\<not> isna v)"

text \<open>
  \<open>DatabaseOperations.safe_value\<close> (lines 352-367). The source takes the target type
  as a string argument and returns values of different types; the model has one function
  for \<open>value_type = 'str'\<close> and one for \<open>value_type = 'bool'\<close>.
\<close>

definition safe_value_str :: "cell \<Rightarrow> string option" where
  "safe_value_str v =
     (if isna v \<or> v = PyNone \<or> lower (py_str v) = ''nan'' then None
      else (let result = strip (py_str v) in if result \<noteq> [] then Some result else None))"

definition safe_value_bool :: "cell \<Rightarrow> bool option" where
  "safe_value_bool v =
     (if isna v \<or> v = PyNone \<or> lower (py_str v) = ''nan'' then None
      else (case v of
              PyBool b \<Rightarrow> Some b
            | PyStr s \<Rightarrow> Some (lower s \<in> set [''true'', ''1'', ''yes'', ''ja'', ''y''])
            | PyInt i \<Rightarrow> Some (i \<noteq> 0)
            | _ \<Rightarrow> None))"

section \<open>Record fetcher and response parser\<close>

text \<open>A decoded JSON document, as \<open>response.json()\<close> returns it: Python's \<open>None\<close>,
  bool, int, float (a mantissa and a binary exponent), str, list and dict (its items in
  order, keys distinct).\<close>

datatype json =
    JNull
  | JBool bool
  | JInt int
  | JFloat int int
  | JStr string
  | JArr "json list"
  | JObj "(string \<times> json) list"

fun py_type_name :: "json \<Rightarrow> string" where
  "py_type_name JNull = ''NoneType''"
| "py_type_name (JBool b) = ''bool''"
| "py_type_name (JInt i) = ''int''"
| "py_type_name (JFloat m e) = ''float''"
| "py_type_name (JStr s) = ''str''"
| "py_type_name (JArr xs) = ''list''"
| "py_type_name (JObj kvs) = ''dict''"

text \<open>Truth value of a Python object, as \<open>if x\<close> and \<open>not x\<close> take it.\<close>

fun truthy :: "json \<Rightarrow> bool" where
  "truthy JNull = False"
| "truthy (JBool b) = b"
| "truthy (JInt i) = (i \<noteq> 0)"
| "truthy (JFloat m e) = (m \<noteq> 0)"
| "truthy (JStr s) = (s \<noteq> [])"
| "truthy (JArr xs) = (xs \<noteq> [])"
| "truthy (JObj kvs) = (kvs \<noteq> [])"

text \<open>\<open>x.get(key, dflt)\<close> with the default \<open>dflt\<close>; only a dict has the method.\<close>

fun py_get :: "json \<Rightarrow> string \<Rightarrow> json \<Rightarrow> py_exc + json" where
  "py_get (JObj kvs) key dflt =
     Inr (case map_of kvs key of None \<Rightarrow> dflt | Some v \<Rightarrow> v)"
| "py_get x key dflt = Inl (AttributeError (py_type_name x) ''get'')"

fun starts_with :: "string \<Rightarrow> string \<Rightarrow> bool" where
  "starts_with [] s = True"
| "starts_with (a # as) [] = False"
| "starts_with (a # as) (b # bs) = (a = b \<and> starts_with as bs)"

fun contains_sub :: "string \<Rightarrow> string \<Rightarrow> bool" where
  "contains_sub needle [] = (needle = [])"
| "contains_sub needle (c # cs) = (starts_with needle (c # cs) \<or> contains_sub needle cs)"

text \<open>\<open>key in x\<close> for a string \<open>key\<close>: a key of a dict, an element of a list, a
  substring of a str; the other types raise.\<close>

fun py_in :: "string \<Rightarrow> json \<Rightarrow> py_exc + bool" where
  "py_in key (JObj kvs) = Inr (key \<in> set (map fst kvs))"
| "py_in key (JArr xs) = Inr (JStr key \<in> set xs)"
| "py_in key (JStr s) = Inr (contains_sub key s)"
| "py_in key x =
     Inl (TypeError (''argument of type '' @ [CHR 0x27] @ py_type_name x @ [CHR 0x27]
                     @ '' is not iterable''))"

text \<open>\<open>x[0]\<close>.\<close>

fun py_index0 :: "json \<Rightarrow> py_exc + json" where
  "py_index0 (JArr []) = Inl (IndexError ''list index out of range'')"
| "py_index0 (JArr (v # vs)) = Inr v"
| "py_index0 (JStr []) = Inl (IndexError ''string index out of range'')"
| "py_index0 (JStr (c # cs)) = Inr (JStr [c])"
| "py_index0 (JObj kvs) = Inl (KeyErrorIndex 0)"
| "py_index0 x =
     Inl (TypeError ([CHR 0x27] @ py_type_name x @ [CHR 0x27] @ '' object is not subscriptable''))"

text \<open>The values \<open>for v in x\<close> runs through.\<close>

fun py_iter :: "json \<Rightarrow> py_exc + json list" where
  "py_iter (JArr xs) = Inr xs"
| "py_iter (JObj kvs) = Inr (map (\<lambda>kv. JStr (fst kv)) kvs)"
| "py_iter (JStr s) = Inr (map (\<lambda>c. JStr [c]) s)"
| "py_iter x =
     Inl (TypeError ([CHR 0x27] @ py_type_name x @ [CHR 0x27] @ '' object is not iterable''))"

text \<open>\<open>x.strip()\<close>; only a str has the method (among the JSON values).\<close>

fun py_strip :: "json \<Rightarrow> py_exc + string" where
  "py_strip (JStr s) = Inr (strip s)"
| "py_strip x = Inl (AttributeError (py_type_name x) ''strip'')"

text \<open>\<open>str(e)\<close> for an exception.\<close>

fun str_exc :: "py_exc \<Rightarrow> string" where
  "str_exc (KeyError k) = [CHR 0x27] @ k @ [CHR 0x27]"
| "str_exc (KeyErrorIndex i) = str_int i"
| "str_exc (IndexError m) = m"
| "str_exc (AttributeError t a) =
     [CHR 0x27] @ t @ [CHR 0x27] @ '' object has no attribute '' @ [CHR 0x27] @ a @ [CHR 0x27]"
| "str_exc (TypeError m) = m"
| "str_exc ZeroDivisionError = ''integer division or modulo by zero''"
| "str_exc (FileNotFoundError f) =
     ''[Errno 2] No such file or directory: '' @ [CHR 0x27] @ f @ [CHR 0x27]"
| "str_exc (StorageError m) = m"
| "str_exc (ValueError m) = m"
| "str_exc MemoryError = []"

text \<open>Sequencing of steps that may raise.\<close>

definition bind_exc :: "'e + 'a \<Rightarrow> ('a \<Rightarrow> 'e + 'b) \<Rightarrow> 'e + 'b" where
  "bind_exc m f = (case m of Inl e \<Rightarrow> Inl e | Inr x \<Rightarrow> f x)"

text \<open>
  The dictionary \<open>query_single_organisation\<close> returns (lines 105-136): the keys
  \<open>org_number\<close> and \<open>status\<close> always, \<open>data\<close>, \<open>error_code\<close> and \<open>error_message\<close>
  depending on the outcome.
\<close>

record api_response =
  resp_org_number :: string
  resp_status :: string
  resp_data :: "json option"
  resp_error_code :: "int option"
  resp_error_message :: "string option"

text \<open>What \<open>session.post\<close> does: it raises (the text is \<open>str(e)\<close>), or it returns a
  response with a status code, a body text and the outcome of \<open>response.json()\<close>, the
  document or the text of the exception raised by the decoder.\<close>

datatype http_result =
    HttpRaises string
  | HttpResponse int string "string + json"

text \<open>\<open>query_single_organisation\<close> once the access token is there.\<close>

fun query_single_organisation :: "string \<Rightarrow> http_result \<Rightarrow> api_response" where
  "query_single_organisation org (HttpRaises msg) =
     \<lparr> resp_org_number = org, resp_status = ''exception'', resp_data = None,
       resp_error_code = None, resp_error_message = Some (take 200 msg) \<rparr>"
| "query_single_organisation org (HttpResponse status_code text body) =
     (if status_code = 200
      then (case body of
              Inr data \<Rightarrow>
                \<lparr> resp_org_number = org, resp_status = ''success'', resp_data = Some data,
                  resp_error_code = None, resp_error_message = None \<rparr>
            | Inl msg \<Rightarrow>
                \<lparr> resp_org_number = org, resp_status = ''exception'', resp_data = None,
                  resp_error_code = None, resp_error_message = Some (take 200 msg) \<rparr>)
      else \<lparr> resp_org_number = org, resp_status = ''error'', resp_data = None,
             resp_error_code = Some status_code, resp_error_message = Some (take 200 text) \<rparr>)"

text \<open>
  \<open>parse_organisation_data\<close> (lines 138-218). The record built is a Python dict, here
  a map from keys to values. The steps of the \<open>try\<close> block follow, each taking the
  organisation and the dict built so far.
\<close>

type_synonym parsed = "string \<rightharpoonup> json"

text \<open>Lines 167-171.\<close>

definition extract_legal_form :: "json \<Rightarrow> parsed \<Rightarrow> py_exc + parsed" where
  "extract_legal_form org parsed =
     bind_exc (py_get org ''juridiskForm'' (JObj [])) (\<lambda>juridisk_form.
     bind_exc (py_get juridisk_form ''kod'' JNull) (\<lambda>kod.
     bind_exc (py_get juridisk_form ''klartext'' JNull) (\<lambda>klartext.
       Inr (parsed(''legal_form_code'' \<mapsto> kod, ''legal_form_description'' \<mapsto> klartext)))))"

text \<open>Lines 174-178.\<close>

definition extract_names :: "json \<Rightarrow> parsed \<Rightarrow> py_exc + parsed" where
  "extract_names org parsed =
     bind_exc (py_get org ''organisationsnamn'' (JObj [])) (\<lambda>org_names_data.
       if \<not> truthy org_names_data then Inr parsed
       else bind_exc (py_in ''organisationsnamnLista'' org_names_data) (\<lambda>present.
         if \<not> present then Inr parsed
         else bind_exc (py_get org_names_data ''organisationsnamnLista'' (JArr [])) (\<lambda>namn_lista.
           if \<not> truthy namn_lista then Inr parsed
           else bind_exc (py_index0 namn_lista) (\<lambda>first.
                bind_exc (py_get first ''namn'' JNull) (\<lambda>namn.
                  Inr (parsed(''organisation_name'' \<mapsto> namn)))))))"

text \<open>Lines 181-189.\<close>

definition extract_address :: "json \<Rightarrow> parsed \<Rightarrow> py_exc + parsed" where
  "extract_address org parsed =
     bind_exc (py_get org ''postadressOrganisation'' (JObj [])) (\<lambda>address_data.
       if \<not> truthy address_data then Inr parsed
       else bind_exc (py_in ''postadress'' address_data) (\<lambda>present.
         if \<not> present then Inr parsed
         else bind_exc (py_get address_data ''postadress'' (JObj [])) (\<lambda>address.
              bind_exc (py_get address ''utdelningsadress'' JNull) (\<lambda>street.
              bind_exc (py_get address ''postort'' JNull) (\<lambda>postort.
              bind_exc (py_get address ''postnummer'' JNull) (\<lambda>postnummer.
              bind_exc (py_get address ''land'' JNull) (\<lambda>land.
                Inr (parsed(''street_address'' \<mapsto> street, ''city'' \<mapsto> postort,
                            ''postal_code'' \<mapsto> postnummer, ''country'' \<mapsto> land)))))))))"

text \<open>
  Lines 196-197, the generator handed to \<open>next\<close> with the default \<open>None\<close>:
  \<^verbatim>\<open>
  next((sni for sni in sni_list
        if sni.get("kod", "").strip() and sni.get("kod") != "     "), None)
  \<close>
  The entries are tried in order; the first that passes is the result and the entries
  after it are not looked at.
\<close>

fun main_sni_of :: "json list \<Rightarrow> py_exc + json option" where
  "main_sni_of [] = Inr None"
| "main_sni_of (sni # rest) =
     bind_exc (py_get sni ''kod'' (JStr [])) (\<lambda>kod.
     bind_exc (py_strip kod) (\<lambda>stripped.
       if stripped = [] then main_sni_of rest
       else bind_exc (py_get sni ''kod'' JNull) (\<lambda>kod2.
         if kod2 \<noteq> JStr ''     '' then Inr (Some sni) else main_sni_of rest)))"

text \<open>Lines 192-202.\<close>

definition extract_sni :: "json \<Rightarrow> parsed \<Rightarrow> py_exc + parsed" where
  "extract_sni org parsed =
     bind_exc (py_get org ''naringsgrenOrganisation'' (JObj [])) (\<lambda>naringsgren_data.
       if \<not> truthy naringsgren_data then Inr parsed
       else bind_exc (py_in ''sni'' naringsgren_data) (\<lambda>present.
         if \<not> present then Inr parsed
         else bind_exc (py_get naringsgren_data ''sni'' (JArr [])) (\<lambda>sni_list.
           if \<not> truthy sni_list then Inr parsed
           else bind_exc (py_iter sni_list) (\<lambda>entries.
                bind_exc (main_sni_of entries) (\<lambda>main_sni.
                  case main_sni of
                    None \<Rightarrow> Inr parsed
                  | Some sni \<Rightarrow>
                      if \<not> truthy sni then Inr parsed
                      else bind_exc (py_get sni ''kod'' JNull) (\<lambda>kod.
                           bind_exc (py_get sni ''klartext'' JNull) (\<lambda>klartext.
                             Inr (parsed(''sni_code'' \<mapsto> kod,
                                         ''sni_description'' \<mapsto> klartext)))))))))"

text \<open>Lines 205-209.\<close>

definition extract_activity :: "json \<Rightarrow> parsed \<Rightarrow> py_exc + parsed" where
  "extract_activity org parsed =
     bind_exc (py_get org ''organisationsdatum'' (JObj [])) (\<lambda>org_datum.
     bind_exc (py_get org_datum ''registreringsdatum'' JNull) (\<lambda>registreringsdatum.
     bind_exc (py_get org ''verksamOrganisation'' (JObj [])) (\<lambda>verksam_org.
     bind_exc (py_get verksam_org ''kod'' JNull) (\<lambda>kod.
       Inr (parsed(''registration_date'' \<mapsto> registreringsdatum,
                   ''is_active'' \<mapsto> JBool (kod = JStr ''JA'')))))))"

text \<open>The dict of a record that carries only a status and an error text.\<close>

definition status_record :: "string \<Rightarrow> string \<Rightarrow> string \<Rightarrow> parsed" where
  "status_record org status err =
     [''org_number'' \<mapsto> JStr org, ''api_status'' \<mapsto> JStr status, ''error'' \<mapsto> JStr err]"

text \<open>The body of the \<open>try\<close> (lines 148-211); \<open>now\<close> is
  \<open>pd.Timestamp.now().isoformat()\<close>.\<close>

definition extract_fields :: "string \<Rightarrow> api_response \<Rightarrow> py_exc + parsed" where
  "extract_fields now api_response =
     (case resp_data api_response of
        None \<Rightarrow> Inl (KeyError ''data'')
      | Some data \<Rightarrow>
          bind_exc (py_get data ''organisationer'' (JArr [])) (\<lambda>organisations.
            if \<not> truthy organisations
            then Inr (status_record (resp_org_number api_response) ''no_data''
                        ''No organisation data returned'')
            else bind_exc (py_index0 organisations) (\<lambda>org.
                 bind_exc (py_get org ''avregistreradOrganisation'' JNull) (\<lambda>avregistrerad.
                 bind_exc (extract_legal_form org
                             [''org_number'' \<mapsto> JStr (resp_org_number api_response),
                              ''api_status'' \<mapsto> JStr ''success'',
                              ''query_timestamp'' \<mapsto> JStr now,
                              ''is_deregistered'' \<mapsto> JBool (avregistrerad \<noteq> JNull)])
                          (\<lambda>parsed1.
                 bind_exc (extract_names org parsed1) (\<lambda>parsed2.
                 bind_exc (extract_address org parsed2) (\<lambda>parsed3.
                 bind_exc (extract_sni org parsed3) (\<lambda>parsed4.
                   extract_activity org parsed4))))))))"

definition parse_organisation_data :: "string \<Rightarrow> api_response \<Rightarrow> parsed" where
  "parse_organisation_data now api_response =
     (if resp_status api_response \<noteq> ''success''
      then status_record (resp_org_number api_response) (resp_status api_response)
             (case resp_error_message api_response of None \<Rightarrow> [] | Some m \<Rightarrow> m)
      else (case extract_fields now api_response of
              Inr parsed \<Rightarrow> parsed
            | Inl e \<Rightarrow>
                status_record (resp_org_number api_response) ''parse_error''
                  (''Parse error: '' @ take 100 (str_exc e))))"

text \<open>
  The selection of the classification entry in the words of the specification: the first
  entry whose code is a text that is not blank and not all white space.
\<close>

definition nonblank_code :: "json \<Rightarrow> bool" where
  "nonblank_code sni =
     (case sni of
        JObj kvs \<Rightarrow> (case map_of kvs ''kod'' of Some (JStr s) \<Rightarrow> strip s \<noteq> [] | _ \<Rightarrow> False)
      | _ \<Rightarrow> False)"

section \<open>Frames\<close>

text \<open>
  A row of the frame \<open>extract_batch_data\<close> builds from the parsed records
  (\<open>pd.DataFrame(results)\<close>): one column per key of the records, NaN where a record has
  no such key.
\<close>

record fetched_row =
  org_number :: string
  api_status :: cell
  error :: cell
  query_timestamp :: cell
  is_deregistered :: cell
  legal_form_code :: cell
  legal_form_description :: cell
  organisation_name :: cell
  street_address :: cell
  city :: cell
  postal_code :: cell
  country :: cell
  sni_code :: cell
  sni_description :: cell
  registration_date :: cell
  is_active :: cell

text \<open>
  A row of the secondary (Finansinspektionen) file as \<open>pd.read_csv\<close> returns it. The
  file is not part of the repository; the model carries the two columns the pipeline
  reads, under the names of the source with the suffix \<open>_csv\<close>. A frame without the key
  column is a frame with \<open>has_CorporateID_Clean = False\<close>.
\<close>

record fi_row =
  CorporateID_Clean_csv :: cell
  Category_csv :: cell

record fi_frame =
  has_CorporateID_Clean :: bool
  fi_rows :: "fi_row list"

text \<open>
  A row of the merged frame: the columns of the secondary file, the key normalised, and
  the columns of the matching fetched row, all NaN when there is none.
\<close>

record merged_row =
  CorporateID_Clean :: string
  Category :: cell
  bolagsverket :: "fetched_row option"

text \<open>\<open>row.get(column)\<close> for a column that comes from the fetched frame.\<close>

definition row_get :: "(fetched_row \<Rightarrow> cell) \<Rightarrow> merged_row \<Rightarrow> cell" where
  "row_get column row = (case bolagsverket row of None \<Rightarrow> NaN | Some b \<Rightarrow> column b)"

text \<open>The frame handed to the load step is either the merged frame or, when the merge
  fell back, the fetched frame, which has no column \<open>CorporateID_Clean\<close>.\<close>

datatype frame = Fetched "fetched_row list" | Merged "merged_row list"

section \<open>Reconciliation: merging with the secondary dataset\<close>

text \<open>
  \<open>merge_with_finansinspektionen_data\<close> (lines 447-471). pandas is not part of the
  repository; what the function takes from it is gathered in a record, one value per
  call:
  \<^item> \<open>read_csv\<close>: the outcome of \<open>pd.read_csv\<close> on the path, the frame or the
    exception raised (a missing file, for one);
  \<^item> \<open>to_numeric\<close>: what \<open>pd.to_numeric(..., errors='coerce')\<close> at line 454 holds
    for each cell of the key column: no number (NaN), an infinity, or a finite number,
    given by the int that \<open>astype(int)\<close> makes of it;
  \<^item> \<open>merge_raises\<close>: the exception raised inside lines 458-466, if there is one
    (memory exhausted by the join, for one). Line 455 has run by then.
\<close>

datatype numeric = NotANumber | NonFinite | Finite int

record pandas =
  read_csv :: "py_exc + fi_frame"
  to_numeric :: "cell \<Rightarrow> numeric"
  merge_raises :: "py_exc option"

text \<open>
  The key of the secondary frame (line 454):
  \<^verbatim>\<open>pd.to_numeric(fi_df['CorporateID_Clean'], errors='coerce').fillna(0).astype(int).astype(str)\<close>
  \<open>fillna(0)\<close> puts 0 where there is no number; \<open>astype(int)\<close> raises on a value
  that is not finite.
\<close>

definition fillna0 :: "numeric \<Rightarrow> numeric" where
  "fillna0 v = (case v of NotANumber \<Rightarrow> Finite 0 | NonFinite \<Rightarrow> NonFinite | Finite i \<Rightarrow> Finite i)"

fun astype_int :: "numeric \<Rightarrow> py_exc + int" where
  "astype_int (Finite i) = Inr i"
| "astype_int v = Inl (ValueError ''Cannot convert non-finite values (NA or inf) to integer'')"

definition normalize_corporate_id :: "(cell \<Rightarrow> numeric) \<Rightarrow> cell \<Rightarrow> py_exc + string" where
  "normalize_corporate_id num v =
     (case astype_int (fillna0 (num v)) of Inl e \<Rightarrow> Inl e | Inr i \<Rightarrow> Inr (str_int i))"

text \<open>The whole column: the conversion raises when it raises on a cell.\<close>

fun normalize_keys :: "(cell \<Rightarrow> numeric) \<Rightarrow> cell list \<Rightarrow> py_exc + string list" where
  "normalize_keys num [] = Inr []"
| "normalize_keys num (v # vs) =
     (case normalize_corporate_id num v of
        Inl e \<Rightarrow> Inl e
      | Inr k \<Rightarrow> (case normalize_keys num vs of Inl e \<Rightarrow> Inl e | Inr ks \<Rightarrow> Inr (k # ks)))"

text \<open>The identifier of the fetched frame (line 455):
  \<^verbatim>\<open>bolagsverket_df['org_number'].astype(str).str.replace('-', '').str.strip()\<close>\<close>

definition normalize_org_number :: "string \<Rightarrow> string" where
  "normalize_org_number s = strip (filter (\<lambda>c. c \<noteq> CHR ''-'') s)"

text \<open>
  \<open>left.merge(right, left_on='CorporateID_Clean', right_on='org_number', how='left')\<close>:
  the rows of the left frame in order, each once per matching row of the right frame
  (in the order of the right frame), or once with the right columns missing when no row
  matches. A left row comes with its normalised key.
\<close>

definition merge_left_row :: "fetched_row list \<Rightarrow> string \<times> fi_row \<Rightarrow> merged_row list" where
  "merge_left_row right kl =
     (let k = fst kl; l = snd kl;
          matches = filter (\<lambda>r. org_number r = k) right
      in if matches = []
         then [\<lparr> CorporateID_Clean = k, Category = Category_csv l, bolagsverket = None \<rparr>]
         else map (\<lambda>r. \<lparr> CorporateID_Clean = k, Category = Category_csv l,
                          bolagsverket = Some r \<rparr>) matches)"

definition merge_left :: "(string \<times> fi_row) list \<Rightarrow> fetched_row list \<Rightarrow> merged_row list" where
  "merge_left left right = concat (map (merge_left_row right) left)"

text \<open>
  The body of the \<open>try\<close>. An exception comes with the fetched frame as it is when the
  exception is raised: line 455 assigns to the column \<open>org_number\<close> of the frame the
  caller passed in, so an exception raised after it finds the column overwritten. The
  raise points are \<open>read_csv\<close> (line 450), the missing key column and \<open>astype(int)\<close>
  (line 454), and the join with the summary that follows it (lines 458-466). The fetched
  frame always has the columns \<open>org_number\<close> and \<open>api_status\<close>.
\<close>

definition merge_try ::
  "pandas \<Rightarrow> fetched_row list \<Rightarrow> py_exc \<times> fetched_row list + merged_row list" where
  "merge_try pd bolagsverket_df =
     (case read_csv pd of
        Inl e \<Rightarrow> Inl (e, bolagsverket_df)
      | Inr fi_df \<Rightarrow>
          if \<not> has_CorporateID_Clean fi_df
          then Inl (KeyError ''CorporateID_Clean'', bolagsverket_df)
          else (case normalize_keys (to_numeric pd) (map CorporateID_Clean_csv (fi_rows fi_df)) of
                  Inl e \<Rightarrow> Inl (e, bolagsverket_df)
                | Inr keys \<Rightarrow>
                    (let overwritten =
                           map (\<lambda>b. b\<lparr>org_number := normalize_org_number (org_number b)\<rparr>)
                             bolagsverket_df
                     in case merge_raises pd of
                          Some e \<Rightarrow> Inl (e, overwritten)
                        | None \<Rightarrow> Inr (merge_left (zip keys (fi_rows fi_df)) overwritten))))"

text \<open>\<open>except Exception\<close>: the fetched frame, as it is by then, is returned in place of
  the merged one.\<close>

definition merge_with_finansinspektionen_data :: "pandas \<Rightarrow> fetched_row list \<Rightarrow> frame" where
  "merge_with_finansinspektionen_data pd bolagsverket_df =
     (case merge_try pd bolagsverket_df of
        Inl (e, df) \<Rightarrow> Fetched df
      | Inr merged_df \<Rightarrow> Merged merged_df)"

section \<open>Load: deduplication and bulk upsert\<close>

text \<open>The tuple \<open>row_data\<close> built for one row (lines 387-404).\<close>

record data_row =
  d_corporate_id :: string
  d_name :: "string option"
  d_category :: "string option"
  d_api_status :: "string option"
  d_is_active :: "bool option"
  d_is_deregistered :: "bool option"
  d_registration_date :: "string option"
  d_street_address :: "string option"
  d_city :: "string option"
  d_postal_code :: "string option"
  d_country :: "string option"
  d_sni_code :: "string option"
  d_sni_description :: "string option"
  d_legal_form_code :: "string option"
  d_legal_form_description :: "string option"
  d_query_timestamp :: "string option"

text \<open>A row of the table \<open>companies\<close> (the CREATE TABLE of \<open>setup_database\<close>).\<close>

record company =
  co_id :: nat
  co_corporate_id :: string
  co_name :: "string option"
  co_category :: "string option"
  co_api_status :: "string option"
  co_is_active :: "bool option"
  co_is_deregistered :: "bool option"
  co_registration_date :: "string option"
  co_street_address :: "string option"
  co_city :: "string option"
  co_postal_code :: "string option"
  co_country :: "string option"
  co_sni_code :: "string option"
  co_sni_description :: "string option"
  co_legal_form_code :: "string option"
  co_legal_form_description :: "string option"
  co_query_timestamp :: "string option"
  co_created_at :: nat
  co_updated_at :: nat

text \<open>
  What the load step takes from outside the program, one value per run:
  \<^item> \<open>to_datetime\<close>: \<open>pd.to_datetime\<close> on a cell that is not missing, the timestamp
    written as text, or the exception it raises;
  \<^item> \<open>db_accepts\<close>: whether the database accepts a proposed row (the column types and
    lengths of the table, the syntax of the date);
  \<^item> \<open>uuid_generate_v4\<close>: the identifier the database draws for a new row, given here
    per corporate identifier;
  \<^item> \<open>current_timestamp\<close>: CURRENT_TIMESTAMP of the transaction.
\<close>

record environment =
  to_datetime :: "cell \<Rightarrow> py_exc + string"
  db_accepts :: "data_row \<Rightarrow> bool"
  uuid_generate_v4 :: "string \<Rightarrow> nat"
  current_timestamp :: nat

text \<open>\<open>df.drop_duplicates(subset=[key], keep='first')\<close>: rows in order, a row dropped
  when its key was seen before.\<close>

fun drop_duplicates_seen :: "('a \<Rightarrow> 'k) \<Rightarrow> 'k list \<Rightarrow> 'a list \<Rightarrow> 'a list" where
  "drop_duplicates_seen key seen [] = []"
| "drop_duplicates_seen key seen (x # xs) =
     (if key x \<in> set seen then drop_duplicates_seen key seen xs
      else x # drop_duplicates_seen key (key x # seen) xs)"

definition drop_duplicates :: "('a \<Rightarrow> 'k) \<Rightarrow> 'a list \<Rightarrow> 'a list" where
  "drop_duplicates key df = drop_duplicates_seen key [] df"

definition reg_date_of :: "cell \<Rightarrow> string option" where
  "reg_date_of reg_date =
     (case reg_date of
        PyStr s \<Rightarrow> (if notna reg_date \<and> 10 \<le> length s then Some (take 10 s) else None)
      | _ \<Rightarrow> None)"

definition row_data :: "environment \<Rightarrow> merged_row \<Rightarrow> py_exc + data_row" where
  "row_data env row =
     (case (if notna (row_get query_timestamp row)
            then map_sum id Some (to_datetime env (row_get query_timestamp row))
            else Inr None) of
        Inl e \<Rightarrow> Inl e
      | Inr ts \<Rightarrow> Inr \<lparr>
          d_corporate_id = CorporateID_Clean row,
          d_name = safe_value_str (row_get organisation_name row),
          d_category = safe_value_str (Category row),
          d_api_status = safe_value_str (row_get api_status row),
          d_is_active = safe_value_bool (row_get is_active row),
          d_is_deregistered = safe_value_bool (row_get is_deregistered row),
          d_registration_date = reg_date_of (row_get registration_date row),
          d_street_address = safe_value_str (row_get street_address row),
          d_city = safe_value_str (row_get city row),
          d_postal_code = safe_value_str (row_get postal_code row),
          d_country = safe_value_str (row_get country row),
          d_sni_code = safe_value_str (row_get sni_code row),
          d_sni_description = safe_value_str (row_get sni_description row),
          d_legal_form_code = safe_value_str (row_get legal_form_code row),
          d_legal_form_description = safe_value_str (row_get legal_form_description row),
          d_query_timestamp = ts \<rparr>)"

text \<open>The loop over \<open>df_clean.iterrows()\<close>: the first exception ends it.\<close>

fun data_rows :: "environment \<Rightarrow> merged_row list \<Rightarrow> py_exc + data_row list" where
  "data_rows env [] = Inr []"
| "data_rows env (row # rows) =
     (case row_data env row of
        Inl e \<Rightarrow> Inl e
      | Inr d \<Rightarrow> (case data_rows env rows of Inl e \<Rightarrow> Inl e | Inr ds \<Rightarrow> Inr (d # ds)))"

text \<open>
  The statement of lines 410-422 for one proposed row:
  \<^verbatim>\<open>
  INSERT INTO companies (corporate_id, name, ..., query_timestamp) VALUES %s
  ON CONFLICT (corporate_id) DO UPDATE SET
      name = EXCLUDED.name, category = EXCLUDED.category,
      api_status = EXCLUDED.api_status, is_active = EXCLUDED.is_active,
      updated_at = CURRENT_TIMESTAMP
  \<close>
  A new row takes \<open>id\<close>, \<open>created_at\<close> and \<open>updated_at\<close> from the column defaults.
\<close>

definition do_update :: "environment \<Rightarrow> data_row \<Rightarrow> company \<Rightarrow> company" where
  "do_update env excluded r =
     r\<lparr> co_name := d_name excluded,
        co_category := d_category excluded,
        co_api_status := d_api_status excluded,
        co_is_active := d_is_active excluded,
        co_updated_at := current_timestamp env \<rparr>"

definition insert_row :: "environment \<Rightarrow> data_row \<Rightarrow> company" where
  "insert_row env d =
     \<lparr> co_id = uuid_generate_v4 env (d_corporate_id d),
       co_corporate_id = d_corporate_id d,
       co_name = d_name d,
       co_category = d_category d,
       co_api_status = d_api_status d,
       co_is_active = d_is_active d,
       co_is_deregistered = d_is_deregistered d,
       co_registration_date = d_registration_date d,
       co_street_address = d_street_address d,
       co_city = d_city d,
       co_postal_code = d_postal_code d,
       co_country = d_country d,
       co_sni_code = d_sni_code d,
       co_sni_description = d_sni_description d,
       co_legal_form_code = d_legal_form_code d,
       co_legal_form_description = d_legal_form_description d,
       co_query_timestamp = d_query_timestamp d,
       co_created_at = current_timestamp env,
       co_updated_at = current_timestamp env \<rparr>"

definition insert_on_conflict :: "environment \<Rightarrow> data_row \<Rightarrow> company list \<Rightarrow> company list" where
  "insert_on_conflict env d companies =
     (if d_corporate_id d \<in> set (map co_corporate_id companies)
      then map (\<lambda>r. if co_corporate_id r = d_corporate_id d then do_update env d r else r) companies
      else companies @ [insert_row env d])"

text \<open>
  \<open>execute_values(cur, upsert_query, data_rows, page_size=1000)\<close> followed by
  \<open>conn.commit()\<close>: the rows are proposed in order; a row the database refuses raises,
  nothing is committed and the table stays as it was.
\<close>

definition execute_values :: "environment \<Rightarrow> data_row list \<Rightarrow> company list \<Rightarrow> py_exc + company list" where
  "execute_values env ds companies =
     (if list_all (db_accepts env) ds then Inr (fold (insert_on_conflict env) ds companies)
      else Inl (StorageError ''companies''))"

record load_result =
  processed :: int
  duplicates_removed :: int

text \<open>
  \<open>bulk_upsert_companies\<close> (lines 369-434). The result is the exception raised, or the
  table after the commit with the dictionary returned.
\<close>

definition bulk_upsert_companies ::
  "environment \<Rightarrow> frame \<Rightarrow> company list \<Rightarrow> py_exc + (company list \<times> load_result)" where
  "bulk_upsert_companies env df companies =
     (case df of
        Fetched _ \<Rightarrow> Inl (KeyError ''CorporateID_Clean'')
      | Merged rows \<Rightarrow>
          (let df_clean = drop_duplicates CorporateID_Clean rows;
               duplicate_count = int (length rows) - int (length df_clean)
           in case data_rows env df_clean of
                Inl e \<Rightarrow> Inl e
              | Inr ds \<Rightarrow>
                  (case execute_values env ds companies of
                     Inl e \<Rightarrow> Inl e
                   | Inr companies' \<Rightarrow>
                       Inr (companies',
                            \<lparr> processed = int (length ds),
                              duplicates_removed = duplicate_count \<rparr>))))"

text \<open>
  Two notions the proofs about the statement use. A proposed row is \<open>stored\<close> in a table
  when a row with its identifier exists and every such row carries its mutable fields.
  \<open>touch t keys\<close> sets \<open>updated_at\<close> to \<open>t\<close> on the rows whose identifier is in
  \<open>keys\<close>.
\<close>

definition stored :: "data_row \<Rightarrow> company list \<Rightarrow> bool" where
  "stored d companies \<longleftrightarrow>
     d_corporate_id d \<in> set (map co_corporate_id companies) \<and>
     (\<forall>r \<in> set companies. co_corporate_id r = d_corporate_id d \<longrightarrow>
        co_name r = d_name d \<and> co_category r = d_category d \<and>
        co_api_status r = d_api_status d \<and> co_is_active r = d_is_active d)"

definition touch :: "nat \<Rightarrow> string set \<Rightarrow> company \<Rightarrow> company" where
  "touch t keys r = (if co_corporate_id r \<in> keys then r\<lparr>co_updated_at := t\<rparr> else r)"

subsection \<open>Example values\<close>

text \<open>
  An environment that accepts every row and draws the same identifier for each new row,
  a fetched row, the merged row built from it, the tuple prepared from that row and the
  table rows it leads to.
\<close>

definition example_env :: "nat \<Rightarrow> environment" where
  "example_env t =
     \<lparr> to_datetime = (\<lambda>v. Inr (py_str v)),
       db_accepts = (\<lambda>d. True),
       uuid_generate_v4 = (\<lambda>k. 1),
       current_timestamp = t \<rparr>"

definition example_fetched :: fetched_row where
  "example_fetched =
     \<lparr> org_number = ''5560001234'',
       api_status = PyStr ''success'',
       error = NaN,
       query_timestamp = PyStr ''2024-05-06T07:08:09'',
       is_deregistered = PyBool False,
       legal_form_code = PyStr ''49'',
       legal_form_description = PyStr ''Aktiebolag'',
       organisation_name = PyStr ''Example AB'',
       street_address = PyStr ''Storgatan 1'',
       city = PyStr ''Stockholm'',
       postal_code = PyStr ''11122'',
       country = PyStr ''Sverige'',
       sni_code = PyStr ''64190'',
       sni_description = PyStr ''Bank'',
       registration_date = PyStr ''1990-01-02T00:00:00'',
       is_active = PyBool True \<rparr>"

definition example_merged :: merged_row where
  "example_merged =
     \<lparr> CorporateID_Clean = ''5560001234'',
       Category = PyStr ''Bank'',
       bolagsverket = Some example_fetched \<rparr>"

definition example_data :: data_row where
  "example_data =
     \<lparr> d_corporate_id = ''5560001234'',
       d_name = Some ''Example AB'',
       d_category = Some ''Bank'',
       d_api_status = Some ''success'',
       d_is_active = Some True,
       d_is_deregistered = Some False,
       d_registration_date = Some ''1990-01-02'',
       d_street_address = Some ''Storgatan 1'',
       d_city = Some ''Stockholm'',
       d_postal_code = Some ''11122'',
       d_country = Some ''Sverige'',
       d_sni_code = Some ''64190'',
       d_sni_description = Some ''Bank'',
       d_legal_form_code = Some ''49'',
       d_legal_form_description = Some ''Aktiebolag'',
       d_query_timestamp = Some ''2024-05-06T07:08:09'' \<rparr>"

definition example_company :: "nat \<Rightarrow> nat \<Rightarrow> company" where
  "example_company created updated =
     \<lparr> co_id = 1,
       co_corporate_id = ''5560001234'',
       co_name = Some ''Example AB'',
       co_category = Some ''Bank'',
       co_api_status = Some ''success'',
       co_is_active = Some True,
       co_is_deregistered = Some False,
       co_registration_date = Some ''1990-01-02'',
       co_street_address = Some ''Storgatan 1'',
       co_city = Some ''Stockholm'',
       co_postal_code = Some ''11122'',
       co_country = Some ''Sverige'',
       co_sni_code = Some ''64190'',
       co_sni_description = Some ''Bank'',
       co_legal_form_code = Some ''49'',
       co_legal_form_description = Some ''Aktiebolag'',
       co_query_timestamp = Some ''2024-05-06T07:08:09'',
       co_created_at = created,
       co_updated_at = updated \<rparr>"

definition example_old_company :: company where
  "example_old_company =
     \<lparr> co_id = 5,
       co_corporate_id = ''5560001234'',
       co_name = Some ''Old name'',
       co_category = None,
       co_api_status = Some ''error'',
       co_is_active = None,
       co_is_deregistered = Some True,
       co_registration_date = None,
       co_street_address = Some ''Gamla gatan 2'',
       co_city = None,
       co_postal_code = None,
       co_country = None,
       co_sni_code = None,
       co_sni_description = None,
       co_legal_form_code = None,
       co_legal_form_description = None,
       co_query_timestamp = None,
       co_created_at = 1,
       co_updated_at = 1 \<rparr>"

definition example_fi_frame :: fi_frame where
  "example_fi_frame =
     \<lparr> has_CorporateID_Clean = True,
       fi_rows = [\<lparr> CorporateID_Clean_csv = PyInt 5560001234, Category_csv = PyStr ''Bank'' \<rparr>] \<rparr>"



definition example_hyphen_fetched :: fetched_row where
  "example_hyphen_fetched = example_fetched\<lparr>org_number := ''556000-1234''\<rparr>"

definition example_no_key_frame :: fi_frame where
  "example_no_key_frame = \<lparr> has_CorporateID_Clean = False, fi_rows = [] \<rparr>"

text \<open>
  \<open>pd.to_numeric\<close> on the three key cells of the examples: the int cell holds its
  number, the text \<open>inf\<close> an infinity, the text \<open>556000-1234\<close> no number. The
  examples apply it to no other cell.
\<close>

definition example_to_numeric :: "cell \<Rightarrow> numeric" where
  "example_to_numeric v =
     (if v = PyInt 5560001234 then Finite 5560001234
      else if v = PyStr ''inf'' then NonFinite
      else NotANumber)"

definition example_pandas :: "py_exc + fi_frame \<Rightarrow> py_exc option \<Rightarrow> pandas" where
  "example_pandas outcome raised =
     \<lparr> read_csv = outcome, to_numeric = example_to_numeric, merge_raises = raised \<rparr>"

definition example_fund_merged :: merged_row where
  "example_fund_merged = example_merged\<lparr>Category := PyStr ''Fund''\<rparr>"

definition example_sni_list :: "json list" where
  "example_sni_list =
     [JObj [(''kod'', JStr ''   '')],
      JObj [(''kod'', JStr ''62.01''), (''klartext'', JStr ''X'')]]"

definition example_ng :: "(string \<times> json) list" where
  "example_ng = [(''sni'', JArr example_sni_list)]"

definition example_org_items :: "(string \<times> json) list" where
  "example_org_items = [(''naringsgrenOrganisation'', JObj example_ng)]"

definition example_payload :: "(string \<times> json) list" where
  "example_payload = [(''organisationer'', JArr [JObj example_org_items])]"

definition example_response :: api_response where
  "example_response =
     \<lparr> resp_org_number = ''5560001234'', resp_status = ''success'',
       resp_data = Some (JObj example_payload),
       resp_error_code = None, resp_error_message = None \<rparr>"

definition example_bad_response :: api_response where
  "example_bad_response =
     \<lparr> resp_org_number = ''5560001234'', resp_status = ''success'',
       resp_data = Some (JArr []),
       resp_error_code = None, resp_error_message = None \<rparr>"

subsection \<open>Facts about the split\<close>

lemma batch_size_pos:
  "batch_size total_count max_workers = Inr b \<Longrightarrow> 1 \<le> b"
  by (auto simp: batch_size_def split: if_splits)

lemma batch_size_defined:
  "1 \<le> max_workers \<Longrightarrow>
   batch_size total_count max_workers = Inr (max 1 (total_count div nat max_workers))"
proof -
  assume w: "1 \<le> max_workers"
  then have "int total_count div max_workers = int (total_count div nat max_workers)"
    by (simp add: zdiv_int)
  then have "nat (max 1 (int total_count div max_workers)) = max 1 (total_count div nat max_workers)"
    by (simp add: max_def)
  with w show ?thesis by (simp add: batch_size_def)
qed

lemma concat_slices_from:
  "0 < b \<Longrightarrow> i \<le> length xs \<Longrightarrow>
   concat (map (\<lambda>k. slice xs k (k + b)) (py_range i (length xs) b)) = drop i xs"
proof (induction i "length xs" b rule: py_range.induct)
  case (1 i step)
  show ?case
  proof (cases "i < length xs")
    case True
    have "drop i xs = take step (drop i xs) @ drop (i + step) xs"
      by (metis append_take_drop_id drop_drop add.commute)
    moreover have "concat (map (\<lambda>k. slice xs k (k + step)) (py_range (i + step) (length xs) step))
        = drop (i + step) xs"
    proof (cases "i + step \<le> length xs")
      case True
      with 1 \<open>i < length xs\<close> show ?thesis by simp
    next
      case False
      then show ?thesis by (simp add: py_range.simps [of "i + step"])
    qed
    ultimately show ?thesis
      using True 1(2) by (simp add: py_range.simps [of i] slice_def)
  next
    case False
    with 1(3) have "i = length xs" by simp
    moreover have "py_range i (length xs) step = []"
      using False by (subst py_range.simps) simp
    ultimately show ?thesis by simp
  qed
qed

lemma div_add_step: "0 < (s::nat) \<Longrightarrow> (a + s) div s = Suc (a div s)"
  by (simp add: div_add_self2)

lemma py_range_map:
  "0 < b \<Longrightarrow> py_range i n b = map (\<lambda>k. i + k * b) [0..<(n - i + b - 1) div b]"
proof (induction i n b rule: py_range.induct)
  case (1 i n step)
  show ?case
  proof (cases "i < n")
    case True
    have a: "(n - i + step - 1) div step = Suc ((n - Suc i) div step)"
    proof -
      have "n - i + step - 1 = (n - Suc i) + step" using True by simp
      then have "(n - i + step - 1) div step = ((n - Suc i) + step) div step" by (simp only:)
      also have "\<dots> = Suc ((n - Suc i) div step)"
        by (rule div_add_step) (rule 1(2))
      finally show ?thesis .
    qed
    have b: "(n - (i + step) + step - 1) div step = (n - Suc i) div step"
    proof (cases "i + step \<le> n")
      case True
      then have "n - (i + step) + step - 1 = n - Suc i" using 1(2) by simp
      then show ?thesis by (simp only:)
    next
      case False
      then have "n - (i + step) + step - 1 < step" "n - Suc i < step" using 1(2) by simp_all
      then show ?thesis by simp
    qed
    have cnt: "(n - i + step - 1) div step = Suc ((n - (i + step) + step - 1) div step)"
      using a b by simp
    have "py_range i n step = i # py_range (i + step) n step"
      using True 1(2) by (subst py_range.simps) simp
    also have "py_range (i + step) n step
        = map (\<lambda>k. i + step + k * step) [0..<(n - (i + step) + step - 1) div step]"
      using 1 True by simp
    also have "i # \<dots> = map (\<lambda>k. i + k * step) [0..<Suc ((n - (i + step) + step - 1) div step)]"
      by (simp add: upt_conv_Cons map_Suc_upt [symmetric] del: upt_Suc)
    finally show ?thesis by (simp only: cnt)
  next
    case False
    then have "n - i + step - 1 < step" using 1(2) by simp
    then have "(n - i + step - 1) div step = 0" by simp
    moreover have "py_range i n step = []"
      using False by (subst py_range.simps) simp
    ultimately show ?thesis by simp
  qed
qed


lemma org_batches_eq:
  assumes "1 \<le> max_workers"
  shows "org_batches xs max_workers =
    Inr (map (\<lambda>k. slice xs (k * max 1 (length xs div nat max_workers))
                       (k * max 1 (length xs div nat max_workers) + max 1 (length xs div nat max_workers)))
          [0..<(length xs + max 1 (length xs div nat max_workers) - 1) div max 1 (length xs div nat max_workers)])"
  using assms by (simp add: org_batches_def batch_size_defined py_range_map comp_def)

lemma ceil_div_bounds:
  assumes "0 < (b::nat)" "0 < n"
  shows "((n + b - 1) div b - 1) * b < n" and "n \<le> ((n + b - 1) div b) * b"
proof -
  define c where "c = (n + b - 1) div b"
  have m: "n + b - 1 = c * b + (n + b - 1) mod b"
    by (simp add: c_def)
  have r: "(n + b - 1) mod b < b" using assms by simp
  from m r have "n + b - 1 < c * b + b" by linarith
  then show "n \<le> ((n + b - 1) div b) * b" using assms by (simp add: c_def)
  have "0 < c" using assms by (simp add: c_def div_greater_zero_iff)
  then have "(c - 1) * b + b = c * b"
    by (cases c) simp_all
  with m have "(c - 1) * b + b \<le> n + b - 1" by linarith
  then show "((n + b - 1) div b - 1) * b < n" using assms by (simp add: c_def)
qed

lemma length_slice: "length (slice xs i j) = min (j - i) (length xs - i)"
  by (simp add: slice_def)


subsection \<open>Claims about the split\<close>

text \<open>
  C5, as the code has it. For a non-empty identifier list and a worker count of at least 1
  the list is cut into contiguous chunks of \<open>b = max 1 (M div N)\<close> identifiers: chunk
  \<open>k\<close> is the slice from \<open>k * b\<close> to \<open>k * b + b\<close>, there are \<open>(M + b - 1) div b\<close>
  chunks, every chunk before the last holds exactly \<open>b\<close> identifiers and the last one
  holds between 1 and \<open>b\<close>. The number of chunks is the worker count when the worker
  count divides the length of the list.
\<close>

theorem org_batches_chunks:
  assumes "org_numbers \<noteq> []" and "1 \<le> max_workers"
  shows "\<exists>b chunks.
      batch_size (length org_numbers) max_workers = Inr b
    \<and> b = max 1 (length org_numbers div nat max_workers)
    \<and> org_batches org_numbers max_workers = Inr chunks
    \<and> length chunks = (length org_numbers + b - 1) div b
    \<and> (\<forall>k < length chunks. chunks ! k = slice org_numbers (k * b) (k * b + b))
    \<and> (\<forall>k. Suc k < length chunks \<longrightarrow> length (chunks ! k) = b)
    \<and> 1 \<le> length (last chunks) \<and> length (last chunks) \<le> b
    \<and> (int (length org_numbers) mod max_workers = 0 \<longrightarrow> int (length chunks) = max_workers)"
proof -
  define n where "n = length org_numbers"
  define b where "b = max 1 (n div nat max_workers)"
  define c where "c = (n + b - 1) div b"
  define chunks where "chunks = map (\<lambda>k. slice org_numbers (k * b) (k * b + b)) [0..<c]"
  have bpos: "0 < b" by (simp add: b_def)
  have npos: "0 < n" using assms(1) by (simp add: n_def)
  have cpos: "0 < c" using bpos npos by (simp add: c_def div_greater_zero_iff)
  have lo: "(c - 1) * b < n" and hi: "n \<le> c * b"
    using ceil_div_bounds [OF bpos npos] by (simp_all add: c_def)
  have 1: "batch_size (length org_numbers) max_workers = Inr b"
    using assms(2) by (simp add: batch_size_defined b_def n_def)
  have 2: "org_batches org_numbers max_workers = Inr chunks"
    using org_batches_eq [OF assms(2), of org_numbers]
    by (simp add: chunks_def c_def b_def n_def)
  have 3: "length chunks = c" by (simp add: chunks_def)
  have 4: "chunks ! k = slice org_numbers (k * b) (k * b + b)" if "k < c" for k
    using that by (simp add: chunks_def)
  have 5: "length (chunks ! k) = b" if "Suc k < c" for k
  proof -
    from that have "Suc k \<le> c - 1" by simp
    then have "Suc k * b \<le> (c - 1) * b" by (rule mult_le_mono1)
    with lo have "k * b + b \<le> n" by simp
    then show ?thesis using that by (simp add: 4 length_slice n_def)
  qed
  have l: "last chunks = slice org_numbers ((c - 1) * b) ((c - 1) * b + b)"
    using cpos by (cases c) (simp_all add: chunks_def)
  have cb: "(c - 1) * b + b = c * b" using cpos by (cases c) simp_all
  have 6: "1 \<le> length (last chunks)"
  proof -
    have "1 \<le> n - (c - 1) * b" using lo by linarith
    then show ?thesis using bpos by (simp add: l length_slice n_def)
  qed
  have 7: "length (last chunks) \<le> b"
    by (simp add: l length_slice)
  have 8: "int c = max_workers" if d: "int n mod max_workers = 0"
  proof -
    define w where "w = nat max_workers"
    have wpos: "0 < w" using assms(2) by (simp add: w_def)
    have "int n mod int w = 0" using d assms(2) by (simp add: w_def)
    then have "n mod w = 0" by (metis of_nat_mod of_nat_eq_0_iff)
    then have nw: "n = w * (n div w)" by (metis mult_div_mod_eq add.right_neutral)
    with npos have "0 < n div w" by (metis mult_0_right neq0_conv)
    then have bq: "b = n div w" by (simp add: b_def w_def)
    have "n + b - 1 = w * b + (b - 1)" using nw bq bpos by simp
    then have "c = (b * w + (b - 1)) div b" by (simp add: c_def mult.commute)
    also have "\<dots> = w"
    proof (rule div_nat_eqI)
      show "b * w \<le> b * w + (b - 1)" by simp
      show "b * w + (b - 1) < b * Suc w" using bpos by simp
    qed
    finally show ?thesis using assms(2) by (simp add: w_def)
  qed
  have fb: "b = max 1 (length org_numbers div nat max_workers)"
    by (simp add: b_def n_def)
  have f3: "length chunks = (length org_numbers + b - 1) div b"
    by (simp add: 3 c_def n_def)
  have f4: "\<forall>k < length chunks. chunks ! k = slice org_numbers (k * b) (k * b + b)"
    using 4 by (simp add: 3)
  have f5: "\<forall>k. Suc k < length chunks \<longrightarrow> length (chunks ! k) = b"
    using 5 by (simp add: 3)
  have f8: "int (length org_numbers) mod max_workers = 0 \<longrightarrow> int (length chunks) = max_workers"
    using 8 by (simp add: 3 n_def)
  from 1 fb 2 f3 f4 f5 6 7 f8 show ?thesis by blast
qed


theorem org_batches_chunks_witness:
  "[''a'', ''b'', ''c'', ''d'', ''e'', ''f'', ''g''] \<noteq> [] \<and> (1::int) \<le> 3 \<and>
   (\<exists>b chunks.
      batch_size (length [''a'', ''b'', ''c'', ''d'', ''e'', ''f'', ''g'']) 3 = Inr b
    \<and> b = max 1 (length [''a'', ''b'', ''c'', ''d'', ''e'', ''f'', ''g''] div nat 3)
    \<and> org_batches [''a'', ''b'', ''c'', ''d'', ''e'', ''f'', ''g''] 3 = Inr chunks
    \<and> length chunks = (length [''a'', ''b'', ''c'', ''d'', ''e'', ''f'', ''g''] + b - 1) div b
    \<and> (\<forall>k < length chunks. chunks ! k = slice [''a'', ''b'', ''c'', ''d'', ''e'', ''f'', ''g''] (k * b) (k * b + b))
    \<and> (\<forall>k. Suc k < length chunks \<longrightarrow> length (chunks ! k) = b)
    \<and> 1 \<le> length (last chunks) \<and> length (last chunks) \<le> b
    \<and> (int (length [''a'', ''b'', ''c'', ''d'', ''e'', ''f'', ''g'']) mod 3 = 0 \<longrightarrow> int (length chunks) = 3))"
proof -
  have h1: "[''a'', ''b'', ''c'', ''d'', ''e'', ''f'', ''g''] \<noteq> []" by simp
  have h2: "(1::int) \<le> 3" by simp
  show ?thesis
    by (intro conjI) (rule h1, rule h2, rule org_batches_chunks [OF h1 h2])
qed

text \<open>
  C5 as the specification words it fails: seven identifiers and three workers give four
  chunks, the remainder being a chunk of its own.
\<close>

theorem org_batches_not_worker_count:
  "org_batches [''a'', ''b'', ''c'', ''d'', ''e'', ''f'', ''g''] 3 = Inr [[''a'', ''b''], [''c'', ''d''], [''e'', ''f''], [''g'']]
   \<and> length [[''a'', ''b''], [''c'', ''d''], [''e'', ''f''], [''g'']] \<noteq> 3"
  by (simp add: org_batches_def batch_size_def py_range.simps slice_def)

text \<open>
  C6. For every identifier list and every worker count of at least 1 the split succeeds
  and the chunks, concatenated in order, are the original list: no identifier is lost and
  none is repeated.
\<close>

theorem partition_complete:
  assumes "1 \<le> max_workers"
  shows "\<exists>chunks. org_batches org_numbers max_workers = Inr chunks \<and> concat chunks = org_numbers"
proof -
  have "0 < max 1 (length org_numbers div nat max_workers)" by simp
  then have "concat (map (\<lambda>k. slice org_numbers k (k + max 1 (length org_numbers div nat max_workers)))
       (py_range 0 (length org_numbers) (max 1 (length org_numbers div nat max_workers)))) = org_numbers"
    using concat_slices_from [of _ 0 org_numbers] by simp
  then show ?thesis
    using assms by (simp add: org_batches_def batch_size_defined)
qed


theorem partition_complete_witness:
  "(1::int) \<le> 3 \<and>
   (\<exists>chunks. org_batches [''a'', ''b'', ''c'', ''d'', ''e'', ''f'', ''g''] 3 = Inr chunks \<and> concat chunks = [''a'', ''b'', ''c'', ''d'', ''e'', ''f'', ''g''])"
proof -
  have h: "(1::int) \<le> 3" by simp
  show ?thesis
    by (intro conjI) (rule h, rule partition_complete [OF h])
qed

section \<open>Facts about the load step\<close>

subsection \<open>Deduplication\<close>

lemma dd_seen_keys:
  "key ` set (drop_duplicates_seen key seen xs) = key ` set xs - set seen"
  by (induction xs arbitrary: seen) auto

lemma dd_seen_distinct:
  "distinct (map key (drop_duplicates_seen key seen xs))"
  by (induction xs arbitrary: seen) (auto simp: dd_seen_keys)

lemma dd_seen_length:
  "length (drop_duplicates_seen key seen xs) \<le> length xs"
  by (induction xs arbitrary: seen) (auto simp: le_SucI)

lemma dd_seen_first:
  "r \<in> set (drop_duplicates_seen key seen xs) \<Longrightarrow>
   find (\<lambda>x. key x = key r) xs = Some r"
proof (induction xs arbitrary: seen)
  case Nil
  then show ?case by simp
next
  case (Cons x xs)
  show ?case
  proof (cases "key x \<in> set seen")
    case True
    with Cons.prems have r: "r \<in> set (drop_duplicates_seen key seen xs)" by simp
    then have "key r \<in> key ` set (drop_duplicates_seen key seen xs)" by simp
    then have "key r \<notin> set seen" by (simp only: dd_seen_keys) simp
    with True have "key x \<noteq> key r" by auto
    with Cons.IH [OF r] show ?thesis by simp
  next
    case False
    with Cons.prems consider "r = x" | "r \<in> set (drop_duplicates_seen key (key x # seen) xs)"
      by auto
    then show ?thesis
    proof cases
      case 1
      then show ?thesis by simp
    next
      case 2
      then have "key r \<in> key ` set (drop_duplicates_seen key (key x # seen) xs)" by simp
      then have "key r \<noteq> key x" by (simp only: dd_seen_keys) simp
      with Cons.IH [OF 2] show ?thesis by auto
    qed
  qed
qed

lemma drop_duplicates_keys: "key ` set (drop_duplicates key xs) = key ` set xs"
  by (simp add: drop_duplicates_def dd_seen_keys)

lemma drop_duplicates_distinct: "distinct (map key (drop_duplicates key xs))"
  by (simp add: drop_duplicates_def dd_seen_distinct)

lemma drop_duplicates_length: "length (drop_duplicates key xs) \<le> length xs"
  by (simp add: drop_duplicates_def dd_seen_length)

lemma drop_duplicates_first:
  "r \<in> set (drop_duplicates key xs) \<Longrightarrow> find (\<lambda>x. key x = key r) xs = Some r"
  by (simp add: drop_duplicates_def dd_seen_first)

lemma drop_duplicates_card: "length (drop_duplicates key xs) = card (set (map key xs))"
  by (metis drop_duplicates_distinct drop_duplicates_keys distinct_card length_map set_map)

subsection \<open>Prepared rows\<close>

lemma row_data_key: "row_data env row = Inr d \<Longrightarrow> d_corporate_id d = CorporateID_Clean row"
  by (auto simp: row_data_def split: sum.splits)

lemma data_rows_keys:
  "data_rows env rows = Inr ds \<Longrightarrow> map d_corporate_id ds = map CorporateID_Clean rows"
  by (induction rows arbitrary: ds) (auto split: sum.splits simp: row_data_key)

lemma data_rows_length: "data_rows env rows = Inr ds \<Longrightarrow> length ds = length rows"
  by (drule data_rows_keys) (metis length_map)

lemma data_rows_nth:
  "data_rows env rows = Inr ds \<Longrightarrow> i < length rows \<Longrightarrow> row_data env (rows ! i) = Inr (ds ! i)"
proof (induction rows arbitrary: ds i)
  case Nil
  then show ?case by simp
next
  case (Cons row rows)
  then show ?case by (cases i) (auto split: sum.splits)
qed


subsection \<open>The statement, row by row\<close>

lemma do_update_id [simp]: "co_corporate_id (do_update env d r) = co_corporate_id r"
  by (simp add: do_update_def)

lemma find_key_None: "k \<notin> key ` set xs \<Longrightarrow> find (\<lambda>x. key x = k) xs = None"
  by (induction xs) auto

lemma insert_row_fields [simp]:
  "co_corporate_id (insert_row env d) = d_corporate_id d"
  "co_name (insert_row env d) = d_name d"
  "co_category (insert_row env d) = d_category d"
  "co_api_status (insert_row env d) = d_api_status d"
  "co_is_active (insert_row env d) = d_is_active d"
  by (simp_all add: insert_row_def)

lemma do_update_fields [simp]:
  "co_name (do_update env d r) = d_name d"
  "co_category (do_update env d r) = d_category d"
  "co_api_status (do_update env d r) = d_api_status d"
  "co_is_active (do_update env d r) = d_is_active d"
  by (simp_all add: do_update_def)

lemma insert_on_conflict_nth:
  assumes "i < length companies"
  shows "insert_on_conflict env d companies ! i =
     (if co_corporate_id (companies ! i) = d_corporate_id d
      then do_update env d (companies ! i) else companies ! i)"
proof (cases "d_corporate_id d \<in> set (map co_corporate_id companies)")
  case True
  with assms show ?thesis by (simp add: insert_on_conflict_def)
next
  case False
  have "companies ! i \<in> set companies" using assms by simp
  then have "co_corporate_id (companies ! i) \<in> set (map co_corporate_id companies)" by simp
  with False have "co_corporate_id (companies ! i) \<noteq> d_corporate_id d" by metis
  with False assms show ?thesis by (simp add: insert_on_conflict_def nth_append)
qed

lemma insert_on_conflict_keys:
  "co_corporate_id ` set (insert_on_conflict env d companies)
     = insert (d_corporate_id d) (co_corporate_id ` set companies)"
proof (cases "d_corporate_id d \<in> set (map co_corporate_id companies)")
  case True
  let ?f = "\<lambda>r. if co_corporate_id r = d_corporate_id d then do_update env d r else r"
  have m: "map co_corporate_id (map ?f companies) = map co_corporate_id companies"
    by (induction companies) simp_all
  have eq: "insert_on_conflict env d companies = map ?f companies"
    using True by (simp add: insert_on_conflict_def)
  have "co_corporate_id ` set (map ?f companies) = set (map co_corporate_id (map ?f companies))"
    by (simp only: set_map)
  also have "\<dots> = co_corporate_id ` set companies"
    by (simp only: m set_map)
  finally have "co_corporate_id ` set (insert_on_conflict env d companies)
      = co_corporate_id ` set companies"
    by (simp only: eq)
  moreover have "d_corporate_id d \<in> co_corporate_id ` set companies"
    using True by simp
  ultimately show ?thesis by (simp add: insert_absorb)
next
  case False
  then show ?thesis by (simp add: insert_on_conflict_def)
qed

lemma insert_on_conflict_mem:
  assumes "r' \<in> set (insert_on_conflict env d companies)"
  shows "(\<exists>r \<in> set companies.
            r' = (if co_corporate_id r = d_corporate_id d then do_update env d r else r))
         \<or> r' = insert_row env d"
proof (cases "d_corporate_id d \<in> set (map co_corporate_id companies)")
  case True
  with assms show ?thesis by (auto simp: insert_on_conflict_def)
next
  case False
  with assms consider "r' \<in> set companies" | "r' = insert_row env d"
    by (auto simp: insert_on_conflict_def)
  then show ?thesis
  proof cases
    case 1
    then have "co_corporate_id r' \<in> set (map co_corporate_id companies)" by simp
    with False have "co_corporate_id r' \<noteq> d_corporate_id d" by metis
    with 1 show ?thesis by (intro disjI1 bexI [of _ r']) simp_all
  next
    case 2
    then show ?thesis by simp
  qed
qed

lemma insert_on_conflict_length:
  "length companies \<le> length (insert_on_conflict env d companies)"
  by (simp add: insert_on_conflict_def)

lemma fold_insert_length:
  "length companies \<le> length (fold (insert_on_conflict env) ds companies)"
proof (induction ds arbitrary: companies)
  case Nil
  then show ?case by simp
next
  case (Cons d ds)
  have "length companies \<le> length (insert_on_conflict env d companies)"
    by (rule insert_on_conflict_length)
  also have "\<dots> \<le> length (fold (insert_on_conflict env) ds (insert_on_conflict env d companies))"
    by (rule Cons.IH)
  finally show ?case by simp
qed

lemma fold_insert_nth:
  "distinct (map d_corporate_id ds) \<Longrightarrow> i < length companies \<Longrightarrow>
   fold (insert_on_conflict env) ds companies ! i =
     (case find (\<lambda>d. d_corporate_id d = co_corporate_id (companies ! i)) ds of
        None \<Rightarrow> companies ! i
      | Some d \<Rightarrow> do_update env d (companies ! i))"
proof (induction ds arbitrary: companies)
  case Nil
  then show ?case by simp
next
  case (Cons d ds)
  let ?T = "insert_on_conflict env d companies"
  have i: "i < length ?T"
    using Cons.prems(2) insert_on_conflict_length [of companies env d] by simp
  have dist: "distinct (map d_corporate_id ds)" using Cons.prems(1) by simp
  note IH = Cons.IH [OF dist i]
  show ?case
  proof (cases "co_corporate_id (companies ! i) = d_corporate_id d")
    case True
    then have T: "?T ! i = do_update env d (companies ! i)"
      using Cons.prems(2) by (simp add: insert_on_conflict_nth)
    have "d_corporate_id d \<notin> set (map d_corporate_id ds)" using Cons.prems(1) by simp
    then have "find (\<lambda>x. d_corporate_id x = d_corporate_id d) ds = None"
      by (intro find_key_None) simp
    with IH T True show ?thesis by (simp split: option.split)
  next
    case False
    then have T: "?T ! i = companies ! i"
      using Cons.prems(2) by (simp add: insert_on_conflict_nth)
    from False have "d_corporate_id d \<noteq> co_corporate_id (companies ! i)" by simp
    with IH T show ?thesis by (simp split: option.split)
  qed
qed

lemma stored_insert: "stored d (insert_on_conflict env d companies)"
  unfolding stored_def
proof (intro conjI ballI impI)
  show "d_corporate_id d \<in> set (map co_corporate_id (insert_on_conflict env d companies))"
    by (simp add: insert_on_conflict_keys)
next
  fix r'
  assume "r' \<in> set (insert_on_conflict env d companies)"
    and k: "co_corporate_id r' = d_corporate_id d"
  then consider r where "r \<in> set companies"
      "r' = (if co_corporate_id r = d_corporate_id d then do_update env d r else r)"
    | "r' = insert_row env d"
    using insert_on_conflict_mem by blast
  then have "co_name r' = d_name d \<and> co_category r' = d_category d \<and>
      co_api_status r' = d_api_status d \<and> co_is_active r' = d_is_active d"
  proof cases
    case 1
    with k show ?thesis by (cases "co_corporate_id r = d_corporate_id d") simp_all
  next
    case 2
    then show ?thesis by simp
  qed
  then show "co_name r' = d_name d" "co_category r' = d_category d"
    "co_api_status r' = d_api_status d" "co_is_active r' = d_is_active d"
    by simp_all
qed

lemma stored_insert_other:
  assumes "stored d companies" and ne: "d_corporate_id d' \<noteq> d_corporate_id d"
  shows "stored d (insert_on_conflict env d' companies)"
  unfolding stored_def
proof (intro conjI ballI impI)
  show "d_corporate_id d \<in> set (map co_corporate_id (insert_on_conflict env d' companies))"
    using assms(1) by (simp add: insert_on_conflict_keys stored_def)
next
  fix r'
  assume "r' \<in> set (insert_on_conflict env d' companies)"
    and k: "co_corporate_id r' = d_corporate_id d"
  then consider r where "r \<in> set companies"
      "r' = (if co_corporate_id r = d_corporate_id d' then do_update env d' r else r)"
    | "r' = insert_row env d'"
    using insert_on_conflict_mem by blast
  then have "co_name r' = d_name d \<and> co_category r' = d_category d \<and>
      co_api_status r' = d_api_status d \<and> co_is_active r' = d_is_active d"
  proof cases
    case 1
    show ?thesis
    proof (cases "co_corporate_id r = d_corporate_id d'")
      case True
      with 1 k ne show ?thesis by simp
    next
      case False
      with 1 k assms(1) show ?thesis by (simp add: stored_def)
    qed
  next
    case 2
    with k ne show ?thesis by simp
  qed
  then show "co_name r' = d_name d" "co_category r' = d_category d"
    "co_api_status r' = d_api_status d" "co_is_active r' = d_is_active d"
    by simp_all
qed

lemma stored_fold_other:
  "stored d companies \<Longrightarrow> d_corporate_id d \<notin> set (map d_corporate_id ds) \<Longrightarrow>
   stored d (fold (insert_on_conflict env) ds companies)"
proof (induction ds arbitrary: companies)
  case Nil
  then show ?case by simp
next
  case (Cons d' ds)
  from Cons.prems have "stored d (insert_on_conflict env d' companies)"
    by (intro stored_insert_other) auto
  with Cons show ?case by simp
qed

lemma stored_fold:
  "distinct (map d_corporate_id ds) \<Longrightarrow> d \<in> set ds \<Longrightarrow>
   stored d (fold (insert_on_conflict env) ds companies)"
proof (induction ds arbitrary: companies)
  case Nil
  then show ?case by simp
next
  case (Cons d' ds)
  show ?case
  proof (cases "d = d'")
    case True
    have "stored d (fold (insert_on_conflict env) ds (insert_on_conflict env d companies))"
      using Cons.prems(1) True by (intro stored_fold_other stored_insert) simp
    with True show ?thesis by simp
  next
    case False
    with Cons show ?thesis by simp
  qed
qed

lemma insert_on_conflict_stored:
  assumes "stored d companies"
  shows "insert_on_conflict env d companies
     = map (touch (current_timestamp env) {d_corporate_id d}) companies"
proof -
  have "(if co_corporate_id r = d_corporate_id d then do_update env d r else r)
      = touch (current_timestamp env) {d_corporate_id d} r" if "r \<in> set companies" for r
    using assms that by (auto simp: stored_def touch_def do_update_def)
  then have "map (\<lambda>r. if co_corporate_id r = d_corporate_id d then do_update env d r else r) companies
      = map (touch (current_timestamp env) {d_corporate_id d}) companies"
    by simp
  with assms show ?thesis by (simp add: insert_on_conflict_def stored_def)
qed

lemma stored_touch: "stored d companies \<Longrightarrow> stored d (map (touch t keys) companies)"
  by (auto simp: stored_def touch_def)

lemma touch_touch: "touch t ks (touch t {k} r) = touch t (insert k ks) r"
  by (auto simp: touch_def)

lemma fold_insert_stored:
  "\<forall>d \<in> set ds. stored d companies \<Longrightarrow>
   fold (insert_on_conflict env) ds companies
     = map (touch (current_timestamp env) (d_corporate_id ` set ds)) companies"
proof (induction ds arbitrary: companies)
  case Nil
  then show ?case by (simp add: touch_def map_idI)
next
  case (Cons d ds)
  let ?T = "map (touch (current_timestamp env) {d_corporate_id d}) companies"
  have 1: "insert_on_conflict env d companies = ?T"
    using Cons.prems by (simp add: insert_on_conflict_stored)
  have "\<forall>d' \<in> set ds. stored d' ?T"
    using Cons.prems by (simp add: stored_touch)
  then have "fold (insert_on_conflict env) ds ?T
      = map (touch (current_timestamp env) (d_corporate_id ` set ds)) ?T"
    by (rule Cons.IH)
  then show ?case
    by (simp add: 1 touch_touch comp_def)
qed

lemma dd_seen_find:
  "find (\<lambda>x. key x = k) (drop_duplicates_seen key seen xs)
     = (if k \<in> set seen then None else find (\<lambda>x. key x = k) xs)"
proof (induction xs arbitrary: seen)
  case Nil
  then show ?case by simp
next
  case (Cons x xs)
  then show ?case by (cases "key x = k") auto
qed

lemma drop_duplicates_find:
  "find (\<lambda>x. key x = k) (drop_duplicates key xs) = find (\<lambda>x. key x = k) xs"
  by (simp add: drop_duplicates_def dd_seen_find)

lemma data_rows_Cons:
  assumes "data_rows env (x # xs) = Inr ds"
  obtains d ds' where "row_data env x = Inr d" "data_rows env xs = Inr ds'" "ds = d # ds'"
  using assms by (auto split: sum.splits)

lemma data_rows_find_None:
  "data_rows env xs = Inr ds \<Longrightarrow> find (\<lambda>x. CorporateID_Clean x = k) xs = None \<Longrightarrow>
   find (\<lambda>d. d_corporate_id d = k) ds = None"
proof (induction xs arbitrary: ds)
  case Nil
  then show ?case by simp
next
  case (Cons x xs)
  from Cons.prems(1) obtain d ds' where
    d: "row_data env x = Inr d" and ds': "data_rows env xs = Inr ds'" and ds: "ds = d # ds'"
    by (rule data_rows_Cons)
  from Cons.prems(2) have ne: "CorporateID_Clean x \<noteq> k"
    and rest: "find (\<lambda>x. CorporateID_Clean x = k) xs = None"
    by (simp_all split: if_splits)
  from d ne have "d_corporate_id d \<noteq> k" by (simp add: row_data_key)
  with Cons.IH [OF ds' rest] ds show ?case by simp
qed

lemma data_rows_find_Some:
  "data_rows env xs = Inr ds \<Longrightarrow> find (\<lambda>x. CorporateID_Clean x = k) xs = Some x \<Longrightarrow>
   \<exists>d. row_data env x = Inr d \<and> find (\<lambda>d. d_corporate_id d = k) ds = Some d"
proof (induction xs arbitrary: ds)
  case Nil
  then show ?case by simp
next
  case (Cons y xs)
  from Cons.prems(1) obtain d ds' where
    d: "row_data env y = Inr d" and ds': "data_rows env xs = Inr ds'" and ds: "ds = d # ds'"
    by (rule data_rows_Cons)
  have dk: "d_corporate_id d = CorporateID_Clean y" using d by (rule row_data_key)
  show ?case
  proof (cases "CorporateID_Clean y = k")
    case True
    with Cons.prems(2) have "x = y" by simp
    with True d ds dk show ?thesis by simp
  next
    case False
    with Cons.prems(2) have "find (\<lambda>x. CorporateID_Clean x = k) xs = Some x" by simp
    from Cons.IH [OF ds' this] False ds dk show ?thesis by simp
  qed
qed

lemma row_data_env:
  assumes "to_datetime env2 = to_datetime env1"
  shows "row_data env2 row = row_data env1 row"
  unfolding row_data_def assms by (rule refl)

lemma data_rows_env:
  assumes "to_datetime env2 = to_datetime env1"
  shows "data_rows env2 rows = data_rows env1 rows"
proof (induction rows)
  case Nil
  show ?case by simp
next
  case (Cons row rows)
  then show ?case by (simp only: data_rows.simps row_data_env [OF assms])
qed

lemma bulk_upsert_Merged:
  "bulk_upsert_companies env (Merged rows) companies =
     (case data_rows env (drop_duplicates CorporateID_Clean rows) of
        Inl e \<Rightarrow> Inl e
      | Inr ds \<Rightarrow>
          (if list_all (db_accepts env) ds
           then Inr (fold (insert_on_conflict env) ds companies,
                     \<lparr> processed = int (length ds),
                       duplicates_removed =
                         int (length rows) - int (length (drop_duplicates CorporateID_Clean rows)) \<rparr>)
           else Inl (StorageError ''companies'')))"
  by (cases "data_rows env (drop_duplicates CorporateID_Clean rows)")
     (simp_all add: bulk_upsert_companies_def execute_values_def Let_def)

lemma bulk_upsert_Inr:
  assumes "bulk_upsert_companies env df companies = Inr (companies', res)"
  obtains rows ds where "df = Merged rows"
    and "data_rows env (drop_duplicates CorporateID_Clean rows) = Inr ds"
    and "list_all (db_accepts env) ds"
    and "companies' = fold (insert_on_conflict env) ds companies"
    and "processed res = int (length ds)"
    and "duplicates_removed res
           = int (length rows) - int (length (drop_duplicates CorporateID_Clean rows))"
proof (cases df)
  case (Fetched x)
  with assms show ?thesis by (simp add: bulk_upsert_companies_def)
next
  case (Merged rows)
  show ?thesis
  proof (cases "data_rows env (drop_duplicates CorporateID_Clean rows)")
    case (Inl e)
    with assms Merged show ?thesis by (simp add: bulk_upsert_Merged)
  next
    case (Inr ds)
    show ?thesis
    proof (cases "list_all (db_accepts env) ds")
      case True
      with assms Merged Inr have
        "companies' = fold (insert_on_conflict env) ds companies"
        "res = \<lparr> processed = int (length ds),
                 duplicates_removed =
                   int (length rows) - int (length (drop_duplicates CorporateID_Clean rows)) \<rparr>"
        by (simp_all add: bulk_upsert_Merged)
      then have "companies' = fold (insert_on_conflict env) ds companies"
        "processed res = int (length ds)"
        "duplicates_removed res
           = int (length rows) - int (length (drop_duplicates CorporateID_Clean rows))"
        by simp_all
      with Merged Inr True show ?thesis by (rule that)
    next
      case False
      with assms Merged Inr show ?thesis by (simp add: bulk_upsert_Merged)
    qed
  qed
qed

lemma data_rows_distinct:
  "data_rows env (drop_duplicates CorporateID_Clean rows) = Inr ds \<Longrightarrow>
   distinct (map d_corporate_id ds)"
  by (drule data_rows_keys) (simp add: drop_duplicates_distinct)

lemmas py_eval =
  safe_value_str_def safe_value_bool_def lower_def lower_char_def strip_def is_space_def
  char_of_def bit_0 str_int_def digit_char_def notna_def reg_date_of_def

lemma example_row_data: "row_data (example_env t) example_merged = Inr example_data"
  by (simp add: row_data_def row_get_def example_env_def example_merged_def example_fetched_def
      example_data_def py_eval)

lemma example_first_load:
  "bulk_upsert_companies (example_env t) (Merged [example_merged]) []
     = Inr ([example_company t t], \<lparr>processed = 1, duplicates_removed = 0\<rparr>)"
  by (simp add: bulk_upsert_Merged drop_duplicates_def example_row_data insert_on_conflict_def
      insert_row_def example_company_def example_data_def)
     (simp add: example_env_def)

lemma example_second_load:
  "bulk_upsert_companies (example_env u) (Merged [example_merged]) [example_company t t]
     = Inr ([example_company t u], \<lparr>processed = 1, duplicates_removed = 0\<rparr>)"
  by (simp add: bulk_upsert_Merged drop_duplicates_def example_row_data insert_on_conflict_def
      do_update_def example_company_def example_data_def)
     (simp add: example_env_def)

lemma insert_on_conflict_key_list:
  "map co_corporate_id (insert_on_conflict env d companies) =
     (if d_corporate_id d \<in> set (map co_corporate_id companies)
      then map co_corporate_id companies
      else map co_corporate_id companies @ [d_corporate_id d])"
proof (cases "d_corporate_id d \<in> set (map co_corporate_id companies)")
  case True
  have "map co_corporate_id
          (map (\<lambda>r. if co_corporate_id r = d_corporate_id d then do_update env d r else r) companies)
        = map co_corporate_id companies"
    by (induction companies) simp_all
  with True show ?thesis by (simp add: insert_on_conflict_def)
next
  case False
  then show ?thesis by (simp add: insert_on_conflict_def)
qed

lemma fold_insert_key_list:
  "distinct (map d_corporate_id ds) \<Longrightarrow>
   map co_corporate_id (fold (insert_on_conflict env) ds companies) =
     map co_corporate_id companies
       @ filter (\<lambda>k. k \<notin> set (map co_corporate_id companies)) (map d_corporate_id ds)"
proof (induction ds arbitrary: companies)
  case Nil
  then show ?case by simp
next
  case (Cons d ds)
  let ?T = "insert_on_conflict env d companies"
  from Cons.prems have dist: "distinct (map d_corporate_id ds)"
    and fresh: "d_corporate_id d \<notin> set (map d_corporate_id ds)"
    by simp_all
  have same: "filter (\<lambda>k. k \<notin> set (map co_corporate_id ?T)) (map d_corporate_id ds)
      = filter (\<lambda>k. k \<notin> set (map co_corporate_id companies)) (map d_corporate_id ds)"
  proof (rule filter_cong [OF refl])
    fix k
    assume "k \<in> set (map d_corporate_id ds)"
    with fresh have "k \<noteq> d_corporate_id d" by metis
    then show "(k \<notin> set (map co_corporate_id ?T)) = (k \<notin> set (map co_corporate_id companies))"
      by (simp only: insert_on_conflict_key_list split: if_split) auto
  qed
  have "map co_corporate_id (fold (insert_on_conflict env) (d # ds) companies)
      = map co_corporate_id ?T
          @ filter (\<lambda>k. k \<notin> set (map co_corporate_id ?T)) (map d_corporate_id ds)"
    using Cons.IH [OF dist, of ?T] by simp
  also have "\<dots> = map co_corporate_id ?T
          @ filter (\<lambda>k. k \<notin> set (map co_corporate_id companies)) (map d_corporate_id ds)"
    by (simp only: same)
  also have "\<dots> = map co_corporate_id companies
       @ filter (\<lambda>k. k \<notin> set (map co_corporate_id companies)) (map d_corporate_id (d # ds))"
    by (simp add: insert_on_conflict_key_list)
  finally show ?case .
qed

lemma fold_insert_untouched:
  "r' \<in> set (fold (insert_on_conflict env) ds companies) \<Longrightarrow>
   co_corporate_id r' \<notin> set (map d_corporate_id ds) \<Longrightarrow> r' \<in> set companies"
proof (induction ds arbitrary: companies)
  case Nil
  then show ?case by simp
next
  case (Cons d ds)
  from Cons.prems have ne: "co_corporate_id r' \<noteq> d_corporate_id d"
    and rest: "co_corporate_id r' \<notin> set (map d_corporate_id ds)"
    by auto
  from Cons.prems(1) have "r' \<in> set (fold (insert_on_conflict env) ds (insert_on_conflict env d companies))"
    by simp
  from Cons.IH [OF this rest] have "r' \<in> set (insert_on_conflict env d companies)" .
  then consider r where "r \<in> set companies"
      "r' = (if co_corporate_id r = d_corporate_id d then do_update env d r else r)"
    | "r' = insert_row env d"
    using insert_on_conflict_mem by blast
  then show ?case
  proof cases
    case 1
    show ?thesis
    proof (cases "co_corporate_id r = d_corporate_id d")
      case True
      with 1 ne show ?thesis by simp
    next
      case False
      with 1 show ?thesis by simp
    qed
  next
    case 2
    with ne show ?thesis by simp
  qed
qed

lemma fold_insert_new_row:
  "r' \<in> set (fold (insert_on_conflict env) ds companies) \<Longrightarrow>
   co_corporate_id r' \<notin> set (map co_corporate_id companies) \<Longrightarrow>
   distinct (map d_corporate_id ds) \<Longrightarrow>
   \<exists>d \<in> set ds. r' = insert_row env d"
proof (induction ds arbitrary: companies)
  case Nil
  then show ?case by auto
next
  case (Cons d ds)
  let ?T = "insert_on_conflict env d companies"
  from Cons.prems(3) have dist: "distinct (map d_corporate_id ds)"
    and fresh: "d_corporate_id d \<notin> set (map d_corporate_id ds)"
    by simp_all
  from Cons.prems(1) have mem: "r' \<in> set (fold (insert_on_conflict env) ds ?T)" by simp
  show ?case
  proof (cases "co_corporate_id r' \<in> set (map co_corporate_id ?T)")
    case False
    from Cons.IH [OF mem False dist] show ?thesis by auto
  next
    case True
    with Cons.prems(2) have k: "co_corporate_id r' = d_corporate_id d"
      by (simp only: insert_on_conflict_key_list split: if_splits) auto
    with fresh have "co_corporate_id r' \<notin> set (map d_corporate_id ds)" by simp
    with mem have "r' \<in> set ?T" by (rule fold_insert_untouched)
    then consider r where "r \<in> set companies"
        "r' = (if co_corporate_id r = d_corporate_id d then do_update env d r else r)"
      | "r' = insert_row env d"
      using insert_on_conflict_mem by blast
    then show ?thesis
    proof cases
      case 1
      then have "co_corporate_id r' = co_corporate_id r" by simp
      with 1(1) Cons.prems(2) show ?thesis by auto
    next
      case 2
      then show ?thesis by simp
    qed
  qed
qed

lemma find_distinct_key:
  "distinct (map key xs) \<Longrightarrow> x \<in> set xs \<Longrightarrow> find (\<lambda>y. key y = key x) xs = Some x"
proof (induction xs)
  case Nil
  then show ?case by simp
next
  case (Cons a xs)
  then show ?case by (cases "key a = key x") auto
qed

lemma example_fund_row_key:
  "CorporateID_Clean example_fund_merged = CorporateID_Clean example_merged"
  by (simp add: example_fund_merged_def)

lemma example_two_rows_load:
  "bulk_upsert_companies (example_env 1) (Merged [example_merged, example_fund_merged]) []
      = Inr ([example_company 1 1], \<lparr>processed = 1, duplicates_removed = 1\<rparr>)"
  by (simp add: bulk_upsert_Merged drop_duplicates_def example_fund_row_key example_row_data
      insert_on_conflict_def insert_row_def example_company_def example_data_def)
     (simp add: example_env_def)

subsection \<open>Claims about deduplication and upsert\<close>

text \<open>
  C7, as the code has it. When the load step returns for a frame with the column
  \<open>CorporateID_Clean\<close> (the merged frame):
  \<^item> the deduplicated frame has one row per key, with the same set of keys as the input,
    and each row kept is the first row of the input with its key;
  \<^item> \<open>processed\<close> is the number of rows kept and \<open>duplicates_removed\<close> the number
    of rows dropped, that is the length of the input minus the number of distinct keys;
    two input rows with one key give \<open>duplicates_removed = 1\<close>;
  \<^item> every row of the table after the load whose identifier occurs in the input carries
    \<open>name\<close>, \<open>category\<close>, \<open>api_status\<close> and \<open>is_active\<close> of the first input
    row with that identifier, and is that row's tuple in every column when the identifier
    was not in the table before;
  \<^item> the identifiers of the table after the load are those before it, followed by the
    keys of the input that were not in the table, each once, in the order of their first
    rows; the table grows by the number of such keys.
\<close>

theorem dedup_keeps_first:
  assumes "bulk_upsert_companies env (Merged rows) companies = Inr (companies', res)"
  shows "distinct (map CorporateID_Clean (drop_duplicates CorporateID_Clean rows))
    \<and> CorporateID_Clean ` set (drop_duplicates CorporateID_Clean rows) = CorporateID_Clean ` set rows
    \<and> (\<forall>r \<in> set (drop_duplicates CorporateID_Clean rows).
          find (\<lambda>x. CorporateID_Clean x = CorporateID_Clean r) rows = Some r)
    \<and> processed res = int (length (drop_duplicates CorporateID_Clean rows))
    \<and> duplicates_removed res
         = int (length rows) - int (length (drop_duplicates CorporateID_Clean rows))
    \<and> duplicates_removed res = int (length rows) - int (card (CorporateID_Clean ` set rows))
    \<and> (\<forall>r1 r2. rows = [r1, r2] \<and> CorporateID_Clean r1 = CorporateID_Clean r2
          \<longrightarrow> duplicates_removed res = 1)
    \<and> (\<forall>r' \<in> set companies'. \<forall>row.
          find (\<lambda>x. CorporateID_Clean x = co_corporate_id r') rows = Some row \<longrightarrow>
          (\<exists>d. row_data env row = Inr d
             \<and> co_name r' = d_name d \<and> co_category r' = d_category d
             \<and> co_api_status r' = d_api_status d \<and> co_is_active r' = d_is_active d
             \<and> (co_corporate_id r' \<notin> co_corporate_id ` set companies \<longrightarrow>
                  r' = insert_row env d)))
    \<and> map co_corporate_id companies'
        = map co_corporate_id companies
          @ filter (\<lambda>k. k \<notin> co_corporate_id ` set companies)
              (map CorporateID_Clean (drop_duplicates CorporateID_Clean rows))
    \<and> int (length companies')
        = int (length companies)
          + int (card (CorporateID_Clean ` set rows - co_corporate_id ` set companies))"
proof -
  let ?clean = "drop_duplicates CorporateID_Clean rows"
  from assms obtain ds where
    ds: "data_rows env ?clean = Inr ds"
    and c: "companies' = fold (insert_on_conflict env) ds companies"
    and p: "processed res = int (length ds)"
    and d: "duplicates_removed res = int (length rows) - int (length ?clean)"
    by (elim bulk_upsert_Inr) simp
  have dist: "distinct (map d_corporate_id ds)" using ds by (rule data_rows_distinct)
  have keys: "map d_corporate_id ds = map CorporateID_Clean ?clean" using ds by (rule data_rows_keys)
  have cd: "length ?clean = card (CorporateID_Clean ` set rows)"
    using drop_duplicates_card [of CorporateID_Clean rows] by simp
  have two: "duplicates_removed res = 1"
    if "rows = [r1, r2] \<and> CorporateID_Clean r1 = CorporateID_Clean r2" for r1 r2
    using that d by (simp add: drop_duplicates_def)
  have f: "\<forall>r \<in> set ?clean. find (\<lambda>x. CorporateID_Clean x = CorporateID_Clean r) rows = Some r"
    by (simp add: drop_duplicates_first)
  have p': "processed res = int (length ?clean)"
    using p data_rows_length [OF ds] by simp
  have d': "duplicates_removed res = int (length rows) - int (card (CorporateID_Clean ` set rows))"
    using d cd by simp
  have t: "\<forall>r1 r2. rows = [r1, r2] \<and> CorporateID_Clean r1 = CorporateID_Clean r2
          \<longrightarrow> duplicates_removed res = 1"
    using two by (intro allI impI)
  have first: "\<forall>r' \<in> set companies'. \<forall>row.
          find (\<lambda>x. CorporateID_Clean x = co_corporate_id r') rows = Some row \<longrightarrow>
          (\<exists>d. row_data env row = Inr d
             \<and> co_name r' = d_name d \<and> co_category r' = d_category d
             \<and> co_api_status r' = d_api_status d \<and> co_is_active r' = d_is_active d
             \<and> (co_corporate_id r' \<notin> co_corporate_id ` set companies \<longrightarrow>
                  r' = insert_row env d))"
  proof (intro ballI allI impI)
    fix r' row
    assume r': "r' \<in> set companies'"
      and row: "find (\<lambda>x. CorporateID_Clean x = co_corporate_id r') rows = Some row"
    from row have "find (\<lambda>x. CorporateID_Clean x = co_corporate_id r') ?clean = Some row"
      by (simp only: drop_duplicates_find)
    with ds obtain d0 where d0: "row_data env row = Inr d0"
      and fd: "find (\<lambda>d. d_corporate_id d = co_corporate_id r') ds = Some d0"
      using data_rows_find_Some by blast
    from fd have mem: "d0 \<in> set ds" and k: "d_corporate_id d0 = co_corporate_id r'"
      by (auto simp: find_Some_iff)
    from dist mem have "stored d0 companies'" unfolding c by (rule stored_fold)
    with r' k have fields: "co_name r' = d_name d0" "co_category r' = d_category d0"
      "co_api_status r' = d_api_status d0" "co_is_active r' = d_is_active d0"
      by (simp_all add: stored_def)
    have new: "r' = insert_row env d0" if n: "co_corporate_id r' \<notin> co_corporate_id ` set companies"
    proof -
      from n have "co_corporate_id r' \<notin> set (map co_corporate_id companies)" by simp
      with r' dist obtain d1 where d1: "d1 \<in> set ds" and eq: "r' = insert_row env d1"
        unfolding c using fold_insert_new_row by blast
      from eq have "d_corporate_id d1 = co_corporate_id r'" by simp
      with find_distinct_key [OF dist d1] fd have "d1 = d0" by simp
      with eq show ?thesis by simp
    qed
    from d0 fields new
    show "\<exists>d. row_data env row = Inr d
             \<and> co_name r' = d_name d \<and> co_category r' = d_category d
             \<and> co_api_status r' = d_api_status d \<and> co_is_active r' = d_is_active d
             \<and> (co_corporate_id r' \<notin> co_corporate_id ` set companies \<longrightarrow>
                  r' = insert_row env d)"
      by blast
  qed
  have kl: "map co_corporate_id companies'
        = map co_corporate_id companies
          @ filter (\<lambda>k. k \<notin> co_corporate_id ` set companies) (map CorporateID_Clean ?clean)"
    unfolding c using fold_insert_key_list [OF dist, of env companies] by (simp add: keys)
  have len: "int (length companies')
        = int (length companies)
          + int (card (CorporateID_Clean ` set rows - co_corporate_id ` set companies))"
  proof -
    let ?new = "filter (\<lambda>k. k \<notin> co_corporate_id ` set companies) (map CorporateID_Clean ?clean)"
    have "distinct ?new" using drop_duplicates_distinct [of CorporateID_Clean rows] by simp
    then have "card (set ?new) = length ?new" by (rule distinct_card)
    then have "length ?new = card (set ?new)" by (rule sym)
    also have "set ?new = CorporateID_Clean ` set rows - co_corporate_id ` set companies"
      using drop_duplicates_keys [of CorporateID_Clean rows] by auto
    finally have "length ?new
        = card (CorporateID_Clean ` set rows - co_corporate_id ` set companies)" .
    moreover have "length companies' = length companies + length ?new"
      using arg_cong [OF kl, of length] by simp
    ultimately show ?thesis by simp
  qed
  show ?thesis
    by (intro conjI) (rule drop_duplicates_distinct, rule drop_duplicates_keys,
      rule f, rule p', rule d, rule d', rule t, rule first, rule kl, rule len)
qed

theorem dedup_keeps_first_witness:
  "bulk_upsert_companies (example_env 1) (Merged [example_merged, example_fund_merged]) []
      = Inr ([example_company 1 1], \<lparr>processed = 1, duplicates_removed = 1\<rparr>)
   \<and> find (\<lambda>x. CorporateID_Clean x = co_corporate_id (example_company 1 1))
        [example_merged, example_fund_merged] = Some example_merged
   \<and> (\<exists>d. row_data (example_env 1) example_merged = Inr d
         \<and> co_category (example_company 1 1) = d_category d)
   \<and> co_category (example_company 1 1) = Some ''Bank''
   \<and> safe_value_str (Category example_fund_merged) = Some ''Fund''"
proof -
  have h: "bulk_upsert_companies (example_env 1) (Merged [example_merged, example_fund_merged]) []
      = Inr ([example_company 1 1], \<lparr>processed = 1, duplicates_removed = 1\<rparr>)"
    by (rule example_two_rows_load)
  have f: "find (\<lambda>x. CorporateID_Clean x = co_corporate_id (example_company 1 1))
        [example_merged, example_fund_merged] = Some example_merged"
    by (simp add: example_merged_def example_company_def)
  have m: "example_company 1 1 \<in> set [example_company 1 1]" by simp
  from dedup_keeps_first [OF h, THEN conjunct2, THEN conjunct2, THEN conjunct2, THEN conjunct2,
      THEN conjunct2, THEN conjunct2, THEN conjunct2, THEN conjunct1]
  have "\<forall>r' \<in> set [example_company 1 1]. \<forall>row.
          find (\<lambda>x. CorporateID_Clean x = co_corporate_id r')
            [example_merged, example_fund_merged] = Some row \<longrightarrow>
          (\<exists>d. row_data (example_env 1) row = Inr d
             \<and> co_name r' = d_name d \<and> co_category r' = d_category d
             \<and> co_api_status r' = d_api_status d \<and> co_is_active r' = d_is_active d
             \<and> (co_corporate_id r' \<notin> co_corporate_id ` set ([] :: company list) \<longrightarrow>
                  r' = insert_row (example_env 1) d))" .
  with m f have e: "\<exists>d. row_data (example_env 1) example_merged = Inr d
         \<and> co_category (example_company 1 1) = d_category d"
    by blast
  have b: "co_category (example_company 1 1) = Some ''Bank''"
    using e by (simp add: example_row_data example_data_def)
  have u: "safe_value_str (Category example_fund_merged) = Some ''Fund''"
    by (simp add: example_fund_merged_def py_eval)
  from h f e b u show ?thesis by (intro conjI)
qed

text \<open>
  C7 as the specification words it fails for the frame the merge hands over when it
  falls back: that frame has no column \<open>CorporateID_Clean\<close>, and the load of two
  rows with one identifier raises KeyError where the claim has one duplicate reported.
\<close>

theorem load_fallback_frame_raises:
  "merge_with_finansinspektionen_data
     (example_pandas (Inl (FileNotFoundError ''fi_nordic_cleaned_utf8_bom.csv'')) None)
     [example_fetched, example_fetched] = Fetched [example_fetched, example_fetched]
   \<and> bulk_upsert_companies (example_env 1) (Fetched [example_fetched, example_fetched]) []
       = Inl (KeyError ''CorporateID_Clean'')"
  by (simp add: merge_with_finansinspektionen_data_def merge_try_def example_pandas_def
      bulk_upsert_companies_def)

text \<open>
  C9. When the load step returns, a row that was in the table before keeps its position.
  If no input row has its identifier it is unchanged. Otherwise the first input row with
  its identifier gives the proposed tuple, and the stored row takes \<open>name\<close>,
  \<open>category\<close>, \<open>api_status\<close> and \<open>is_active\<close> from the tuple and the current
  timestamp as \<open>updated_at\<close>, while \<open>created_at\<close>, \<open>id\<close>, the identifier, the
  deregistered flag, the registration date, the address fields, the classification code
  and description, the legal form and the query timestamp stay as they were.
\<close>

theorem upsert_conflict_frame:
  assumes "bulk_upsert_companies env (Merged rows) companies = Inr (companies', res)"
    and "i < length companies"
  shows "i < length companies' \<and>
    (case find (\<lambda>x. CorporateID_Clean x = co_corporate_id (companies ! i)) rows of
       None \<Rightarrow> companies' ! i = companies ! i
     | Some row \<Rightarrow>
         (\<exists>d. row_data env row = Inr d
          \<and> co_name (companies' ! i) = d_name d
          \<and> co_category (companies' ! i) = d_category d
          \<and> co_api_status (companies' ! i) = d_api_status d
          \<and> co_is_active (companies' ! i) = d_is_active d
          \<and> co_updated_at (companies' ! i) = current_timestamp env
          \<and> co_created_at (companies' ! i) = co_created_at (companies ! i)
          \<and> co_id (companies' ! i) = co_id (companies ! i)
          \<and> co_corporate_id (companies' ! i) = co_corporate_id (companies ! i)
          \<and> co_is_deregistered (companies' ! i) = co_is_deregistered (companies ! i)
          \<and> co_registration_date (companies' ! i) = co_registration_date (companies ! i)
          \<and> co_street_address (companies' ! i) = co_street_address (companies ! i)
          \<and> co_city (companies' ! i) = co_city (companies ! i)
          \<and> co_postal_code (companies' ! i) = co_postal_code (companies ! i)
          \<and> co_country (companies' ! i) = co_country (companies ! i)
          \<and> co_sni_code (companies' ! i) = co_sni_code (companies ! i)
          \<and> co_sni_description (companies' ! i) = co_sni_description (companies ! i)
          \<and> co_legal_form_code (companies' ! i) = co_legal_form_code (companies ! i)
          \<and> co_legal_form_description (companies' ! i) = co_legal_form_description (companies ! i)
          \<and> co_query_timestamp (companies' ! i) = co_query_timestamp (companies ! i)))"
proof -
  let ?k = "co_corporate_id (companies ! i)"
  let ?clean = "drop_duplicates CorporateID_Clean rows"
  from assms(1) obtain ds where
    ds: "data_rows env ?clean = Inr ds"
    and c: "companies' = fold (insert_on_conflict env) ds companies"
    by (elim bulk_upsert_Inr) simp
  have dist: "distinct (map d_corporate_id ds)" using ds by (rule data_rows_distinct)
  have len: "i < length companies'"
    using assms(2) fold_insert_length [of companies env ds] by (simp add: c)
  have nth: "companies' ! i =
     (case find (\<lambda>d. d_corporate_id d = ?k) ds of
        None \<Rightarrow> companies ! i
      | Some d \<Rightarrow> do_update env d (companies ! i))"
    unfolding c using dist assms(2) by (rule fold_insert_nth)
  show ?thesis
  proof (cases "find (\<lambda>x. CorporateID_Clean x = ?k) rows")
    case None
    then have "find (\<lambda>x. CorporateID_Clean x = ?k) ?clean = None"
      by (simp only: drop_duplicates_find)
    with ds have "find (\<lambda>d. d_corporate_id d = ?k) ds = None"
      by (rule data_rows_find_None)
    with nth None len show ?thesis by simp
  next
    case (Some row)
    then have "find (\<lambda>x. CorporateID_Clean x = ?k) ?clean = Some row"
      by (simp only: drop_duplicates_find)
    with ds obtain d where d: "row_data env row = Inr d"
      and f: "find (\<lambda>d. d_corporate_id d = ?k) ds = Some d"
      using data_rows_find_Some by blast
    from nth f have r: "companies' ! i = do_update env d (companies ! i)" by simp
    have "co_name (companies' ! i) = d_name d
          \<and> co_category (companies' ! i) = d_category d
          \<and> co_api_status (companies' ! i) = d_api_status d
          \<and> co_is_active (companies' ! i) = d_is_active d
          \<and> co_updated_at (companies' ! i) = current_timestamp env
          \<and> co_created_at (companies' ! i) = co_created_at (companies ! i)
          \<and> co_id (companies' ! i) = co_id (companies ! i)
          \<and> co_corporate_id (companies' ! i) = co_corporate_id (companies ! i)
          \<and> co_is_deregistered (companies' ! i) = co_is_deregistered (companies ! i)
          \<and> co_registration_date (companies' ! i) = co_registration_date (companies ! i)
          \<and> co_street_address (companies' ! i) = co_street_address (companies ! i)
          \<and> co_city (companies' ! i) = co_city (companies ! i)
          \<and> co_postal_code (companies' ! i) = co_postal_code (companies ! i)
          \<and> co_country (companies' ! i) = co_country (companies ! i)
          \<and> co_sni_code (companies' ! i) = co_sni_code (companies ! i)
          \<and> co_sni_description (companies' ! i) = co_sni_description (companies ! i)
          \<and> co_legal_form_code (companies' ! i) = co_legal_form_code (companies ! i)
          \<and> co_legal_form_description (companies' ! i) = co_legal_form_description (companies ! i)
          \<and> co_query_timestamp (companies' ! i) = co_query_timestamp (companies ! i)"
      unfolding r by (simp add: do_update_def)
    with d have "\<exists>d. row_data env row = Inr d
          \<and> co_name (companies' ! i) = d_name d
          \<and> co_category (companies' ! i) = d_category d
          \<and> co_api_status (companies' ! i) = d_api_status d
          \<and> co_is_active (companies' ! i) = d_is_active d
          \<and> co_updated_at (companies' ! i) = current_timestamp env
          \<and> co_created_at (companies' ! i) = co_created_at (companies ! i)
          \<and> co_id (companies' ! i) = co_id (companies ! i)
          \<and> co_corporate_id (companies' ! i) = co_corporate_id (companies ! i)
          \<and> co_is_deregistered (companies' ! i) = co_is_deregistered (companies ! i)
          \<and> co_registration_date (companies' ! i) = co_registration_date (companies ! i)
          \<and> co_street_address (companies' ! i) = co_street_address (companies ! i)
          \<and> co_city (companies' ! i) = co_city (companies ! i)
          \<and> co_postal_code (companies' ! i) = co_postal_code (companies ! i)
          \<and> co_country (companies' ! i) = co_country (companies ! i)
          \<and> co_sni_code (companies' ! i) = co_sni_code (companies ! i)
          \<and> co_sni_description (companies' ! i) = co_sni_description (companies ! i)
          \<and> co_legal_form_code (companies' ! i) = co_legal_form_code (companies ! i)
          \<and> co_legal_form_description (companies' ! i) = co_legal_form_description (companies ! i)
          \<and> co_query_timestamp (companies' ! i) = co_query_timestamp (companies ! i)"
      by (intro exI [of _ d] conjI) simp_all
    with len Some show ?thesis by (simp only: option.case)
  qed
qed

theorem upsert_conflict_frame_witness:
  "bulk_upsert_companies (example_env 2) (Merged [example_merged]) [example_old_company]
      = Inr ([example_old_company
                \<lparr>co_name := Some ''Example AB'', co_category := Some ''Bank'',
                 co_api_status := Some ''success'', co_is_active := Some True,
                 co_updated_at := 2\<rparr>],
             \<lparr>processed = 1, duplicates_removed = 0\<rparr>)
   \<and> (0::nat) < length [example_old_company]
   \<and> co_street_address
        ([example_old_company
            \<lparr>co_name := Some ''Example AB'', co_category := Some ''Bank'',
             co_api_status := Some ''success'', co_is_active := Some True,
             co_updated_at := 2\<rparr>] ! 0)
      = co_street_address ([example_old_company] ! 0)"
proof -
  have h1: "bulk_upsert_companies (example_env 2) (Merged [example_merged]) [example_old_company]
      = Inr ([example_old_company
                \<lparr>co_name := Some ''Example AB'', co_category := Some ''Bank'',
                 co_api_status := Some ''success'', co_is_active := Some True,
                 co_updated_at := 2\<rparr>],
             \<lparr>processed = 1, duplicates_removed = 0\<rparr>)"
    by (simp add: bulk_upsert_Merged drop_duplicates_def example_row_data insert_on_conflict_def
        do_update_def example_old_company_def example_data_def)
       (simp add: example_env_def)
  have h2: "(0::nat) < length [example_old_company]" by simp
  have f: "find (\<lambda>x. CorporateID_Clean x = co_corporate_id ([example_old_company] ! 0))
       [example_merged] = Some example_merged"
    by (simp add: example_merged_def example_old_company_def)
  from upsert_conflict_frame [OF h1 h2] have "co_street_address
        ([example_old_company
            \<lparr>co_name := Some ''Example AB'', co_category := Some ''Bank'',
             co_api_status := Some ''success'', co_is_active := Some True,
             co_updated_at := 2\<rparr>] ! 0)
      = co_street_address ([example_old_company] ! 0)"
    unfolding f by (simp only: option.case) blast
  with h1 h2 show ?thesis by (intro conjI)
qed

text \<open>
  C2, as the code has it. If a first load of a frame returns, a second load of the same
  frame on the resulting table (with the same conversions of timestamps and the same
  checks of the database) returns the same counts, the table keeps its length, and every
  row keeps every field but \<open>updated_at\<close>, which becomes the timestamp of the second
  run on the rows whose identifier occurs in the frame.
\<close>

theorem reload_changes_updated_at_only:
  assumes "bulk_upsert_companies env1 df companies = Inr (companies1, res1)"
    and "to_datetime env2 = to_datetime env1"
    and "db_accepts env2 = db_accepts env1"
  shows "\<exists>rows companies2. df = Merged rows
    \<and> bulk_upsert_companies env2 df companies1 = Inr (companies2, res1)
    \<and> length companies2 = length companies1
    \<and> (\<forall>i < length companies1.
          companies2 ! i = (companies1 ! i)
            \<lparr>co_updated_at :=
               (if co_corporate_id (companies1 ! i) \<in> CorporateID_Clean ` set rows
                then current_timestamp env2 else co_updated_at (companies1 ! i))\<rparr>)"
proof -
  from assms(1) obtain rows ds where
    df: "df = Merged rows"
    and ds: "data_rows env1 (drop_duplicates CorporateID_Clean rows) = Inr ds"
    and acc: "list_all (db_accepts env1) ds"
    and c: "companies1 = fold (insert_on_conflict env1) ds companies"
    and p: "processed res1 = int (length ds)"
    and d: "duplicates_removed res1
           = int (length rows) - int (length (drop_duplicates CorporateID_Clean rows))"
    by (rule bulk_upsert_Inr)
  have res1: "res1 = \<lparr> processed = int (length ds),
      duplicates_removed = int (length rows) - int (length (drop_duplicates CorporateID_Clean rows)) \<rparr>"
    using p d by simp
  have dist: "distinct (map d_corporate_id ds)" using ds by (rule data_rows_distinct)
  have st: "\<forall>d \<in> set ds. stored d companies1"
    unfolding c using dist by (simp add: stored_fold)
  have ds2: "data_rows env2 (drop_duplicates CorporateID_Clean rows) = Inr ds"
    using ds by (simp only: data_rows_env [OF assms(2)])
  have acc2: "list_all (db_accepts env2) ds"
    using acc unfolding assms(3) .
  have keys: "d_corporate_id ` set ds = CorporateID_Clean ` set rows"
  proof -
    have "map d_corporate_id ds = map CorporateID_Clean (drop_duplicates CorporateID_Clean rows)"
      using ds by (rule data_rows_keys)
    then have "set (map d_corporate_id ds)
        = set (map CorporateID_Clean (drop_duplicates CorporateID_Clean rows))"
      by (simp only:)
    then show ?thesis by (simp only: set_map drop_duplicates_keys)
  qed
  have "fold (insert_on_conflict env2) ds companies1
      = map (touch (current_timestamp env2) (CorporateID_Clean ` set rows)) companies1"
    using fold_insert_stored [OF st, of env2] by (simp only: keys)
  then have "bulk_upsert_companies env2 (Merged rows) companies1 =
      Inr (map (touch (current_timestamp env2) (CorporateID_Clean ` set rows)) companies1, res1)"
    using ds2 acc2 by (simp add: bulk_upsert_Merged res1)
  moreover have "length (map (touch (current_timestamp env2) (CorporateID_Clean ` set rows)) companies1)
      = length companies1"
    by simp
  moreover have "\<forall>i < length companies1.
      map (touch (current_timestamp env2) (CorporateID_Clean ` set rows)) companies1 ! i
        = (companies1 ! i)
            \<lparr>co_updated_at :=
               (if co_corporate_id (companies1 ! i) \<in> CorporateID_Clean ` set rows
                then current_timestamp env2 else co_updated_at (companies1 ! i))\<rparr>"
    by (simp add: touch_def)
  ultimately show ?thesis using df by blast
qed

theorem reload_changes_updated_at_only_witness:
  "bulk_upsert_companies (example_env 1) (Merged [example_merged]) []
      = Inr ([example_company 1 1], \<lparr>processed = 1, duplicates_removed = 0\<rparr>)
   \<and> to_datetime (example_env 2) = to_datetime (example_env 1)
   \<and> db_accepts (example_env 2) = db_accepts (example_env 1)
   \<and> (\<exists>rows companies2. Merged [example_merged] = Merged rows
    \<and> bulk_upsert_companies (example_env 2) (Merged [example_merged]) [example_company 1 1]
        = Inr (companies2, \<lparr>processed = 1, duplicates_removed = 0\<rparr>)
    \<and> length companies2 = length [example_company 1 1]
    \<and> (\<forall>i < length [example_company 1 1].
          companies2 ! i = ([example_company 1 1] ! i)
            \<lparr>co_updated_at :=
               (if co_corporate_id ([example_company 1 1] ! i) \<in> CorporateID_Clean ` set rows
                then current_timestamp (example_env 2)
                else co_updated_at ([example_company 1 1] ! i))\<rparr>))"
proof -
  have h1: "bulk_upsert_companies (example_env 1) (Merged [example_merged]) []
      = Inr ([example_company 1 1], \<lparr>processed = 1, duplicates_removed = 0\<rparr>)"
    by (rule example_first_load)
  have h2: "to_datetime (example_env 2) = to_datetime (example_env 1)"
    by (simp add: example_env_def)
  have h3: "db_accepts (example_env 2) = db_accepts (example_env 1)"
    by (simp add: example_env_def)
  show ?thesis
    by (intro conjI) (rule h1, rule h2, rule h3, rule reload_changes_updated_at_only [OF h1 h2 h3])
qed

text \<open>
  C2 as the specification words it fails: loading one row at time 1 and again at time 2
  leaves \<open>updated_at = 2\<close>, where one load leaves \<open>updated_at = 1\<close>.
\<close>

theorem reload_not_identical:
  "bulk_upsert_companies (example_env 1) (Merged [example_merged]) []
      = Inr ([example_company 1 1], \<lparr>processed = 1, duplicates_removed = 0\<rparr>)
   \<and> bulk_upsert_companies (example_env 2) (Merged [example_merged]) [example_company 1 1]
      = Inr ([example_company 1 2], \<lparr>processed = 1, duplicates_removed = 0\<rparr>)
   \<and> [example_company 1 2] \<noteq> [example_company 1 1]"
  by (simp add: example_first_load example_second_load) (simp add: example_company_def)

section \<open>Facts about the merge\<close>












lemmas merge_eval =
  merge_with_finansinspektionen_data_def merge_try_def merge_left_def merge_left_row_def
  normalize_corporate_id_def fillna0_def normalize_org_number_def example_pandas_def
  example_to_numeric_def str_nat.simps Let_def

lemma example_join:
  "merge_with_finansinspektionen_data (example_pandas (Inr example_fi_frame) None)
     [example_hyphen_fetched] = Merged [example_merged]"
  by (simp add: merge_eval py_eval example_fi_frame_def example_hyphen_fetched_def
      example_fetched_def example_merged_def)

subsection \<open>Claims about the merge\<close>







section \<open>Facts about the parser\<close>

lemma bind_exc_Inr: "bind_exc m f = Inr y \<longleftrightarrow> (\<exists>x. m = Inr x \<and> f x = Inr y)"
  by (cases m) (simp_all add: bind_exc_def)

lemma bind_exc_simps [simp]:
  "bind_exc (Inr x) f = f x"
  "bind_exc (Inl e) f = Inl e"
  by (simp_all add: bind_exc_def)

lemma extract_legal_form_other:
  "extract_legal_form org parsed = Inr p \<Longrightarrow>
   k \<noteq> ''legal_form_code'' \<Longrightarrow> k \<noteq> ''legal_form_description'' \<Longrightarrow> p k = parsed k"
  by (auto simp: extract_legal_form_def bind_exc_Inr)

lemma extract_names_other:
  "extract_names org parsed = Inr p \<Longrightarrow> k \<noteq> ''organisation_name'' \<Longrightarrow> p k = parsed k"
  by (auto simp: extract_names_def bind_exc_Inr split: if_splits)

lemma extract_address_other:
  "extract_address org parsed = Inr p \<Longrightarrow>
   k \<noteq> ''street_address'' \<Longrightarrow> k \<noteq> ''city'' \<Longrightarrow> k \<noteq> ''postal_code'' \<Longrightarrow>
   k \<noteq> ''country'' \<Longrightarrow> p k = parsed k"
  by (auto simp: extract_address_def bind_exc_Inr split: if_splits)

lemma extract_sni_other:
  "extract_sni org parsed = Inr p \<Longrightarrow>
   k \<noteq> ''sni_code'' \<Longrightarrow> k \<noteq> ''sni_description'' \<Longrightarrow> p k = parsed k"
  by (auto simp: extract_sni_def bind_exc_Inr split: if_splits option.splits)

lemma extract_activity_other:
  "extract_activity org parsed = Inr p \<Longrightarrow>
   k \<noteq> ''registration_date'' \<Longrightarrow> k \<noteq> ''is_active'' \<Longrightarrow> p k = parsed k"
  by (auto simp: extract_activity_def bind_exc_Inr)

lemma extract_fields_steps:
  assumes "extract_fields now r = Inr p"
  obtains (no_data) "p = status_record (resp_org_number r) ''no_data'' ''No organisation data returned''"
  | (parsed) org avregistrerad parsed1 parsed2 parsed3 parsed4 where
      "extract_legal_form org
         [''org_number'' \<mapsto> JStr (resp_org_number r), ''api_status'' \<mapsto> JStr ''success'',
          ''query_timestamp'' \<mapsto> JStr now, ''is_deregistered'' \<mapsto> JBool (avregistrerad \<noteq> JNull)]
         = Inr parsed1"
      "extract_names org parsed1 = Inr parsed2"
      "extract_address org parsed2 = Inr parsed3"
      "extract_sni org parsed3 = Inr parsed4"
      "extract_activity org parsed4 = Inr p"
      "\<exists>data organisations. resp_data r = Some data
         \<and> py_get data ''organisationer'' (JArr []) = Inr organisations
         \<and> py_index0 organisations = Inr org"
proof -
  from assms obtain data where d: "resp_data r = Some data"
    by (cases "resp_data r") (simp_all add: extract_fields_def)
  from assms d obtain organisations where
    o: "py_get data ''organisationer'' (JArr []) = Inr organisations"
    by (auto simp: extract_fields_def bind_exc_Inr)
  show ?thesis
  proof (cases "truthy organisations")
    case False
    with assms d o have "p = status_record (resp_org_number r) ''no_data'' ''No organisation data returned''"
      by (simp add: extract_fields_def)
    then show ?thesis by (rule no_data)
  next
    case True
    with assms d o obtain org avregistrerad parsed1 parsed2 parsed3 parsed4 where
      "py_index0 organisations = Inr org"
      "extract_legal_form org
         [''org_number'' \<mapsto> JStr (resp_org_number r), ''api_status'' \<mapsto> JStr ''success'',
          ''query_timestamp'' \<mapsto> JStr now, ''is_deregistered'' \<mapsto> JBool (avregistrerad \<noteq> JNull)]
         = Inr parsed1"
      "extract_names org parsed1 = Inr parsed2"
      "extract_address org parsed2 = Inr parsed3"
      "extract_sni org parsed3 = Inr parsed4"
      "extract_activity org parsed4 = Inr p"
      by (auto simp: extract_fields_def bind_exc_Inr)
    with d o show ?thesis by (intro parsed) auto
  qed
qed

lemma extract_fields_tag:
  assumes "extract_fields now r = Inr p"
  shows "p ''org_number'' = Some (JStr (resp_org_number r))
     \<and> (p ''api_status'' = Some (JStr ''success'') \<or> p ''api_status'' = Some (JStr ''no_data''))"
  using assms
proof (cases rule: extract_fields_steps)
  case no_data
  then show ?thesis by (simp add: status_record_def)
next
  case (parsed org avregistrerad parsed1 parsed2 parsed3 parsed4)
  have "p k = [''org_number'' \<mapsto> JStr (resp_org_number r), ''api_status'' \<mapsto> JStr ''success'',
          ''query_timestamp'' \<mapsto> JStr now, ''is_deregistered'' \<mapsto> JBool (avregistrerad \<noteq> JNull)] k"
    if k: "k = ''org_number'' \<or> k = ''api_status''" for k
  proof -
    have ne: "k \<noteq> ''registration_date''" "k \<noteq> ''is_active''" "k \<noteq> ''sni_code''"
      "k \<noteq> ''sni_description''" "k \<noteq> ''street_address''" "k \<noteq> ''city''"
      "k \<noteq> ''postal_code''" "k \<noteq> ''country''" "k \<noteq> ''organisation_name''"
      "k \<noteq> ''legal_form_code''" "k \<noteq> ''legal_form_description''"
      using k by auto
    have "p k = parsed4 k" using parsed(5) ne(1,2) by (rule extract_activity_other)
    also have "\<dots> = parsed3 k" using parsed(4) ne(3,4) by (rule extract_sni_other)
    also have "\<dots> = parsed2 k" using parsed(3) ne(5,6,7,8) by (rule extract_address_other)
    also have "\<dots> = parsed1 k" using parsed(2) ne(9) by (rule extract_names_other)
    also have "\<dots> = [''org_number'' \<mapsto> JStr (resp_org_number r), ''api_status'' \<mapsto> JStr ''success'',
          ''query_timestamp'' \<mapsto> JStr now, ''is_deregistered'' \<mapsto> JBool (avregistrerad \<noteq> JNull)] k"
      using parsed(1) ne(10,11) by (rule extract_legal_form_other)
    finally show ?thesis .
  qed
  from this [of "''org_number''"] this [of "''api_status''"] show ?thesis by simp
qed

lemma tag_widen: "t \<in> {a, b, c, s} \<Longrightarrow> s \<in> {a, d, e} \<Longrightarrow> t \<in> {a, b, c, d, e}"
  by auto

lemma query_status:
  "resp_status (query_single_organisation org http) \<in> {''success'', ''error'', ''exception''}"
  by (cases http) (auto split: sum.splits)

lemma parse_tag:
  "parse_organisation_data now r ''org_number'' = Some (JStr (resp_org_number r))
   \<and> (\<exists>tag. parse_organisation_data now r ''api_status'' = Some (JStr tag)
         \<and> tag \<in> {''success'', ''no_data'', ''parse_error'', resp_status r})"
proof (cases "resp_status r = ''success''")
  case False
  then show ?thesis by (simp add: parse_organisation_data_def status_record_def)
next
  case True
  show ?thesis
  proof (cases "extract_fields now r")
    case (Inl e)
    with True show ?thesis by (simp add: parse_organisation_data_def status_record_def)
  next
    case (Inr p)
    with True have "parse_organisation_data now r = p" by (simp add: parse_organisation_data_def)
    with extract_fields_tag [OF Inr] show ?thesis by auto
  qed
qed

lemma strip_five_spaces: "strip ''     '' = []"
  by (simp add: strip_def is_space_def)

lemma main_sni_of_find: "main_sni_of entries = Inr m \<Longrightarrow> m = find nonblank_code entries"
proof (induction entries)
  case Nil
  then show ?case by simp
next
  case (Cons sni rest)
  from Cons.prems obtain kod stripped where
    kod: "py_get sni ''kod'' (JStr []) = Inr kod" and st: "py_strip kod = Inr stripped"
    by (auto simp: bind_exc_Inr)
  from kod obtain kvs where sni: "sni = JObj kvs" by (cases sni) simp_all
  from st obtain s where s: "kod = JStr s" "stripped = strip s" by (cases kod) auto
  show ?case
  proof (cases "map_of kvs ''kod''")
    case None
    with kod sni s have "s = []" by simp
    then have "stripped = []" using s by (simp add: strip_def)
    with Cons.prems kod st have "main_sni_of rest = Inr m" by simp
    moreover have "\<not> nonblank_code sni" using sni None by (simp add: nonblank_code_def)
    ultimately show ?thesis using Cons.IH by simp
  next
    case (Some v)
    with kod sni s have v: "v = JStr s" by simp
    show ?thesis
    proof (cases "strip s = []")
      case True
      with Cons.prems kod st s have "main_sni_of rest = Inr m" by simp
      moreover have "\<not> nonblank_code sni" using sni Some v True by (simp add: nonblank_code_def)
      ultimately show ?thesis using Cons.IH by simp
    next
      case False
      then have "s \<noteq> ''     ''" using strip_five_spaces by auto
      with Cons.prems kod st s False sni Some v have "m = Some sni" by simp
      moreover have "nonblank_code sni" using sni Some v False by (simp add: nonblank_code_def)
      ultimately show ?thesis by simp
    qed
  qed
qed

lemma map_of_in_keys: "map_of kvs k = Some v \<Longrightarrow> k \<in> set (map fst kvs)"
  by (metis map_of_eq_None_iff option.distinct(1) set_map)

lemma nonblank_codeD:
  assumes "nonblank_code sni"
  shows "\<exists>kvs code. sni = JObj kvs \<and> map_of kvs ''kod'' = Some (JStr code) \<and> strip code \<noteq> []"
proof (cases sni)
  case (JObj kvs)
  show ?thesis
  proof (cases "map_of kvs ''kod''")
    case None
    with assms JObj show ?thesis by (simp add: nonblank_code_def)
  next
    case (Some v)
    with assms JObj show ?thesis by (cases v) (simp_all add: nonblank_code_def)
  qed
qed (use assms in \<open>simp_all add: nonblank_code_def\<close>)

lemma extract_sni_list:
  assumes "extract_sni (JObj org_items) parsed = Inr p"
    and "map_of org_items ''naringsgrenOrganisation'' = Some (JObj ng)"
    and "map_of ng ''sni'' = Some (JArr sni_list)"
    and "sni_list \<noteq> []"
  shows "case find nonblank_code sni_list of
           None \<Rightarrow> p = parsed
         | Some sni \<Rightarrow>
             (\<exists>kvs code. sni = JObj kvs \<and> map_of kvs ''kod'' = Some (JStr code)
                \<and> strip code \<noteq> []
                \<and> p = parsed(''sni_code'' \<mapsto> JStr code,
                            ''sni_description'' \<mapsto>
                               (case map_of kvs ''klartext'' of None \<Rightarrow> JNull | Some v \<Rightarrow> v)))"
proof -
  have ng: "ng \<noteq> []" using assms(3) by auto
  have pres: "''sni'' \<in> set (map fst ng)" using assms(3) by (rule map_of_in_keys)
  have step: "extract_sni (JObj org_items) parsed =
      bind_exc (main_sni_of sni_list) (\<lambda>main_sni.
        case main_sni of
          None \<Rightarrow> Inr parsed
        | Some sni \<Rightarrow>
            if \<not> truthy sni then Inr parsed
            else bind_exc (py_get sni ''kod'' JNull) (\<lambda>kod.
                 bind_exc (py_get sni ''klartext'' JNull) (\<lambda>klartext.
                   Inr (parsed(''sni_code'' \<mapsto> kod, ''sni_description'' \<mapsto> klartext)))))"
    using assms(2,3,4) ng pres by (simp add: extract_sni_def)
  with assms(1) obtain m where m: "main_sni_of sni_list = Inr m"
    and r: "(case m of
          None \<Rightarrow> Inr parsed
        | Some sni \<Rightarrow>
            if \<not> truthy sni then Inr parsed
            else bind_exc (py_get sni ''kod'' JNull) (\<lambda>kod.
                 bind_exc (py_get sni ''klartext'' JNull) (\<lambda>klartext.
                   Inr (parsed(''sni_code'' \<mapsto> kod, ''sni_description'' \<mapsto> klartext))))) = Inr p"
    by (auto simp: bind_exc_Inr)
  from m have f: "find nonblank_code sni_list = m" by (rule main_sni_of_find [symmetric])
  show ?thesis
  proof (cases m)
    case None
    with r f show ?thesis by simp
  next
    case (Some sni)
    with f have "nonblank_code sni" by (auto simp: find_Some_iff)
    then obtain kvs code where k: "sni = JObj kvs" "map_of kvs ''kod'' = Some (JStr code)"
      "strip code \<noteq> []"
      using nonblank_codeD by blast
    then have "kvs \<noteq> []" by auto
    with r Some k have "p = parsed(''sni_code'' \<mapsto> JStr code,
        ''sni_description'' \<mapsto> (case map_of kvs ''klartext'' of None \<Rightarrow> JNull | Some v \<Rightarrow> v))"
      by simp
    with k have "\<exists>kvs code. sni = JObj kvs \<and> map_of kvs ''kod'' = Some (JStr code)
                \<and> strip code \<noteq> []
                \<and> p = parsed(''sni_code'' \<mapsto> JStr code,
                            ''sni_description'' \<mapsto>
                               (case map_of kvs ''klartext'' of None \<Rightarrow> JNull | Some v \<Rightarrow> v))"
      by blast
    with f Some show ?thesis by (simp only: option.case)
  qed
qed

lemmas parse_eval =
  parse_organisation_data_def extract_fields_def extract_legal_form_def extract_names_def
  extract_address_def extract_sni_def extract_activity_def status_record_def
  example_response_def example_payload_def example_org_items_def example_ng_def
  example_sni_list_def example_bad_response_def strip_def is_space_def nonblank_code_def

lemma example_parse_success:
  "parse_organisation_data ''2024-05-06T07:08:09'' example_response ''api_status''
     = Some (JStr ''success'')"
  by (simp add: parse_eval)

subsection \<open>Claims about the parser\<close>

text \<open>
  C4. \<open>parse_organisation_data\<close> is a function into records: no exception leaves it.
  For every response with an identifier and a status, the record holds the identifier
  under \<open>org_number\<close> and a status tag under \<open>api_status\<close> that is \<open>success\<close>,
  \<open>no_data\<close>, \<open>parse_error\<close> or the status of the response; for the responses
  \<open>query_single_organisation\<close> builds, whatever the network did, the tag is one of
  \<open>success\<close>, \<open>no_data\<close>, \<open>parse_error\<close>, \<open>error\<close>, \<open>exception\<close>. When the
  status is \<open>success\<close> and the extraction raises \<open>e\<close>, the record is the one with
  the tag \<open>parse_error\<close> and the error text \<open>Parse error: \<close> followed by the first
  100 characters of \<open>str(e)\<close>.
\<close>

theorem parse_always_tagged:
  "parse_organisation_data now r ''org_number'' = Some (JStr (resp_org_number r))
   \<and> (\<exists>tag. parse_organisation_data now r ''api_status'' = Some (JStr tag)
         \<and> tag \<in> {''success'', ''no_data'', ''parse_error'', resp_status r})
   \<and> (\<exists>tag. parse_organisation_data now (query_single_organisation org http) ''api_status''
              = Some (JStr tag)
         \<and> tag \<in> {''success'', ''no_data'', ''parse_error'', ''error'', ''exception''})
   \<and> (resp_status r = ''success'' \<and> extract_fields now r = Inl e \<longrightarrow>
        parse_organisation_data now r
          = status_record (resp_org_number r) ''parse_error''
              (''Parse error: '' @ take 100 (str_exc e)))"
proof -
  obtain tag where t: "parse_organisation_data now (query_single_organisation org http) ''api_status''
              = Some (JStr tag)"
    "tag \<in> {''success'', ''no_data'', ''parse_error'',
             resp_status (query_single_organisation org http)}"
    using parse_tag [of now "query_single_organisation org http"] by blast
  from t(2) query_status [of org http]
  have "tag \<in> {''success'', ''no_data'', ''parse_error'', ''error'', ''exception''}"
    by (rule tag_widen)
  with t(1) have 3: "\<exists>tag. parse_organisation_data now (query_single_organisation org http) ''api_status''
              = Some (JStr tag)
         \<and> tag \<in> {''success'', ''no_data'', ''parse_error'', ''error'', ''exception''}"
    by (intro exI [of _ tag] conjI)
  have 4: "resp_status r = ''success'' \<and> extract_fields now r = Inl e \<longrightarrow>
        parse_organisation_data now r
          = status_record (resp_org_number r) ''parse_error''
              (''Parse error: '' @ take 100 (str_exc e))"
    by (simp add: parse_organisation_data_def)
  show ?thesis
    by (intro conjI) (rule parse_tag [THEN conjunct1], rule parse_tag [THEN conjunct2],
      rule 3, rule 4)
qed

theorem parse_always_tagged_witness:
  "resp_status example_bad_response = ''success''
   \<and> extract_fields ''2024-05-06T07:08:09'' example_bad_response
       = Inl (AttributeError ''list'' ''get'')
   \<and> parse_organisation_data ''2024-05-06T07:08:09'' example_bad_response
       = status_record ''5560001234'' ''parse_error''
           (''Parse error: '' @ take 100 (str_exc (AttributeError ''list'' ''get'')))"
proof -
  have h1: "resp_status example_bad_response = ''success''"
    by (simp add: example_bad_response_def)
  have h2: "extract_fields ''2024-05-06T07:08:09'' example_bad_response
       = Inl (AttributeError ''list'' ''get'')"
    by (simp add: extract_fields_def example_bad_response_def)
  have n: "resp_org_number example_bad_response = ''5560001234''"
    by (simp add: example_bad_response_def)
  from parse_always_tagged [of "''2024-05-06T07:08:09''" example_bad_response "''5560001234''" "HttpRaises []"
      "AttributeError ''list'' ''get''"] h1 h2
  have "parse_organisation_data ''2024-05-06T07:08:09'' example_bad_response
       = status_record (resp_org_number example_bad_response) ''parse_error''
           (''Parse error: '' @ take 100 (str_exc (AttributeError ''list'' ''get'')))"
    by blast
  with h1 h2 show ?thesis by (simp only: n)
qed

text \<open>
  C8. For a response parsed with the tag \<open>success\<close> whose first organisation has a
  non-empty classification list: if some entry of the list has a code that is a text with
  a character other than white space, the parser stores the code and the description of
  the first such entry (\<open>None\<close> for an entry without description); if there is none,
  it stores neither. The example of the specification, a blank code before
  \<open>62.01\<close> with the description \<open>X\<close>, is the witness.
\<close>

theorem sni_first_nonblank:
  assumes "parse_organisation_data now r ''api_status'' = Some (JStr ''success'')"
    and "resp_data r = Some (JObj payload)"
    and "map_of payload ''organisationer'' = Some (JArr (JObj org_items # others))"
    and "map_of org_items ''naringsgrenOrganisation'' = Some (JObj ng)"
    and "map_of ng ''sni'' = Some (JArr sni_list)"
    and "sni_list \<noteq> []"
  shows "case find nonblank_code sni_list of
      None \<Rightarrow> parse_organisation_data now r ''sni_code'' = None
             \<and> parse_organisation_data now r ''sni_description'' = None
    | Some sni \<Rightarrow>
        (\<exists>kvs code. sni = JObj kvs \<and> map_of kvs ''kod'' = Some (JStr code)
           \<and> strip code \<noteq> []
           \<and> parse_organisation_data now r ''sni_code'' = Some (JStr code)
           \<and> parse_organisation_data now r ''sni_description''
               = Some (case map_of kvs ''klartext'' of None \<Rightarrow> JNull | Some v \<Rightarrow> v))"
proof -
  let ?p = "parse_organisation_data now r"
  have st: "resp_status r = ''success''"
  proof (rule ccontr)
    assume "resp_status r \<noteq> ''success''"
    then have "?p ''api_status'' = Some (JStr (resp_status r))"
      by (simp add: parse_organisation_data_def status_record_def)
    with assms(1) \<open>resp_status r \<noteq> ''success''\<close> show False by simp
  qed
  have ex: "extract_fields now r = Inr ?p"
  proof (cases "extract_fields now r")
    case (Inl e)
    with st have "?p ''api_status'' = Some (JStr ''parse_error'')"
      by (simp add: parse_organisation_data_def status_record_def)
    with assms(1) show ?thesis by simp
  next
    case (Inr p)
    with st show ?thesis by (simp add: parse_organisation_data_def)
  qed
  from ex show ?thesis
  proof (cases rule: extract_fields_steps)
    case no_data
    then have "?p ''api_status'' = Some (JStr ''no_data'')" by (simp add: status_record_def)
    with assms(1) show ?thesis by simp
  next
    case (parsed org avregistrerad parsed1 parsed2 parsed3 parsed4)
    from parsed(6) assms(2,3) have org: "org = JObj org_items" by auto
    have none3: "parsed3 k = None" if k: "k = ''sni_code'' \<or> k = ''sni_description''" for k
    proof -
      have ne: "k \<noteq> ''street_address''" "k \<noteq> ''city''"
        "k \<noteq> ''postal_code''" "k \<noteq> ''country''" "k \<noteq> ''organisation_name''"
        "k \<noteq> ''legal_form_code''" "k \<noteq> ''legal_form_description''"
        using k by auto
      have "parsed3 k = parsed2 k" using parsed(3) ne(1,2,3,4) by (rule extract_address_other)
      also have "\<dots> = parsed1 k" using parsed(2) ne(5) by (rule extract_names_other)
      also have "\<dots> = [''org_number'' \<mapsto> JStr (resp_org_number r),
          ''api_status'' \<mapsto> JStr ''success'', ''query_timestamp'' \<mapsto> JStr now,
          ''is_deregistered'' \<mapsto> JBool (avregistrerad \<noteq> JNull)] k"
        using parsed(1) ne(6,7) by (rule extract_legal_form_other)
      also have "\<dots> = None" using k by auto
      finally show ?thesis .
    qed
    have last: "?p k = parsed4 k" if k: "k = ''sni_code'' \<or> k = ''sni_description''" for k
    proof -
      have ne: "k \<noteq> ''registration_date''" "k \<noteq> ''is_active''" using k by auto
      show ?thesis using parsed(5) ne by (rule extract_activity_other)
    qed
    from parsed(4) have sni: "extract_sni (JObj org_items) parsed3 = Inr parsed4"
      by (simp only: org)
    note sel = extract_sni_list [OF sni assms(4,5,6)]
    show ?thesis
    proof (cases "find nonblank_code sni_list")
      case None
      with sel have "parsed4 = parsed3" by simp
      with none3 last have "?p ''sni_code'' = None \<and> ?p ''sni_description'' = None" by simp
      with None show ?thesis by simp
    next
      case (Some sni)
      with sel obtain kvs code where k: "sni = JObj kvs" "map_of kvs ''kod'' = Some (JStr code)"
        "strip code \<noteq> []"
        and p4: "parsed4 = parsed3(''sni_code'' \<mapsto> JStr code,
            ''sni_description'' \<mapsto> (case map_of kvs ''klartext'' of None \<Rightarrow> JNull | Some v \<Rightarrow> v))"
        by auto
      from last [of "''sni_code''"] last [of "''sni_description''"] p4
      have "?p ''sni_code'' = Some (JStr code)"
        "?p ''sni_description'' = Some (case map_of kvs ''klartext'' of None \<Rightarrow> JNull | Some v \<Rightarrow> v)"
        by simp_all
      with k have "\<exists>kvs code. sni = JObj kvs \<and> map_of kvs ''kod'' = Some (JStr code)
           \<and> strip code \<noteq> []
           \<and> ?p ''sni_code'' = Some (JStr code)
           \<and> ?p ''sni_description''
               = Some (case map_of kvs ''klartext'' of None \<Rightarrow> JNull | Some v \<Rightarrow> v)"
        by blast
      with Some show ?thesis by (simp only: option.case)
    qed
  qed
qed

theorem sni_first_nonblank_witness:
  "parse_organisation_data ''2024-05-06T07:08:09'' example_response ''api_status''
     = Some (JStr ''success'')
   \<and> resp_data example_response = Some (JObj example_payload)
   \<and> map_of example_payload ''organisationer'' = Some (JArr (JObj example_org_items # []))
   \<and> map_of example_org_items ''naringsgrenOrganisation'' = Some (JObj example_ng)
   \<and> map_of example_ng ''sni'' = Some (JArr example_sni_list)
   \<and> example_sni_list \<noteq> []
   \<and> parse_organisation_data ''2024-05-06T07:08:09'' example_response ''sni_code''
       = Some (JStr ''62.01'')
   \<and> parse_organisation_data ''2024-05-06T07:08:09'' example_response ''sni_description''
       = Some (JStr ''X'')"
proof -
  have h1: "parse_organisation_data ''2024-05-06T07:08:09'' example_response ''api_status''
     = Some (JStr ''success'')"
    by (rule example_parse_success)
  have h2: "resp_data example_response = Some (JObj example_payload)"
    by (simp add: example_response_def)
  have h3: "map_of example_payload ''organisationer'' = Some (JArr (JObj example_org_items # []))"
    by (simp add: example_payload_def)
  have h4: "map_of example_org_items ''naringsgrenOrganisation'' = Some (JObj example_ng)"
    by (simp add: example_org_items_def)
  have h5: "map_of example_ng ''sni'' = Some (JArr example_sni_list)"
    by (simp add: example_ng_def)
  have h6: "example_sni_list \<noteq> []" by (simp add: example_sni_list_def)
  have f: "find nonblank_code example_sni_list
      = Some (JObj [(''kod'', JStr ''62.01''), (''klartext'', JStr ''X'')])"
    by (simp add: example_sni_list_def nonblank_code_def strip_def is_space_def)
  from sni_first_nonblank [OF h1 h2 h3 h4 h5 h6]
  have c: "parse_organisation_data ''2024-05-06T07:08:09'' example_response ''sni_code''
       = Some (JStr ''62.01'')
   \<and> parse_organisation_data ''2024-05-06T07:08:09'' example_response ''sni_description''
       = Some (JStr ''X'')"
    unfolding f by (simp only: option.case) auto
  from h1 h2 h3 h4 h5 h6 c show ?thesis by (intro conjI) (erule conjunct1 conjunct2 | assumption)+
qed

end
